theory Spec2Isabelle
  imports Complex_Main "HOL-Library.Product_Lexorder"
begin

section \<open>Shared conventions\<close>

text \<open>
  The repository is Python on top of numpy, pandas and scikit-learn.  Python floats are
  modelled as \<^typ>\<open>real\<close>: the development covers the control flow, the comparisons
  against thresholds and the algebra of the update rules, not IEEE rounding.  Outputs of
  fitted scikit-learn estimators (labels, scores, probabilities) are inputs of the model,
  and so are the mean and the deviation that the forecaster computes with numpy, since
  the program tests that deviation for equality with zero.
  Python's exceptions are values of the type \<open>error\<close>.
\<close>

datatype error =
  ValueError | TypeError | KeyError | IndexError | ZeroDivisionError | FileNotFoundError

text \<open>Arithmetic mean of a list, \<open>np.mean\<close> on a non-empty one-dimensional array.\<close>

definition mean :: "real list \<Rightarrow> real" where
  "mean xs = sum_list xs / real (length xs)"

text \<open>\<open>str\<close> of a Python integer: decimal digits, with a minus sign when negative.\<close>

fun str_nat :: "nat \<Rightarrow> string" where
  "str_nat n = (if n < 10 then [''0123456789'' ! n]
                else str_nat (n div 10) @ [''0123456789'' ! (n mod 10)])"

declare str_nat.simps [simp del]

definition str_int :: "int \<Rightarrow> string" where
  "str_int i = (if i < 0 then CHR ''-'' # str_nat (nat (- i)) else str_nat (nat i))"

text \<open>\<open>int(x)\<close> of a Python float: truncation towards zero.\<close>

definition py_int :: "real \<Rightarrow> int" where
  "py_int x = (if 0 \<le> x then \<lfloor>x\<rfloor> else \<lceil>x\<rceil>)"

text \<open>
  Order of first appearance without repetition: \<open>Series.unique()\<close> of pandas.
\<close>

definition unique :: "'a list \<Rightarrow> 'a list" where
  "unique xs = rev (remdups (rev xs))"


section \<open>Anomaly severity: models/anomaly_detection.py and training/anomaly_detection_trainer.py\<close>

record anomaly_result =
  is_anomaly :: bool
  anomaly_score :: real
  severity :: string

text \<open>
  \<open>AnomalyDetectionModel.detect_anomalies\<close>, one row at a time.  The input pairs are the
  label and the score that \<open>self.predict\<close> returns for the row.  The severity column is
  set to \<open>normal\<close> and then overwritten three times, in the order of the source.
\<close>

definition detect_row :: "real option \<Rightarrow> int \<times> real \<Rightarrow> anomaly_result" where
  "detect_row threshold ps =
     (let prediction = fst ps; score = snd ps;
          flag0 = (prediction = - 1);
          flag = (case threshold of None \<Rightarrow> flag0 | Some t \<Rightarrow> score < t);
          s0 = ''normal'';
          s1 = (if score < - 0.5 then ''low'' else s0);
          s2 = (if score < - 0.7 then ''medium'' else s1);
          s3 = (if score < - 0.9 then ''high'' else s2)
      in \<lparr>is_anomaly = flag, anomaly_score = score, severity = s3\<rparr>)"

definition detect_anomalies :: "(int \<times> real) list \<Rightarrow> real option \<Rightarrow> anomaly_result list" where
  "detect_anomalies predicted threshold = map (detect_row threshold) predicted"

text \<open>\<open>AnomalyDetectionTrainer.calculate_severity\<close>.\<close>

definition calculate_severity :: "real \<Rightarrow> string" where
  "calculate_severity score =
     (if score > - 0.1 then ''low''
      else if score > - 0.3 then ''medium''
      else if score > - 0.5 then ''high''
      else ''critical'')"


section \<open>Device health: models/predictive_maintenance.py\<close>

record assessment =
  device_id :: string
  health_status :: string
  priority :: string
  estimated_rul_days :: real
  anomaly_rate :: real
  recent_anomalies :: nat
  recommendation :: string

text \<open>\<open>PredictiveMaintenanceModel._generate_recommendation\<close>.\<close>

definition generate_recommendation :: "string \<Rightarrow> real \<Rightarrow> real \<Rightarrow> string" where
  "generate_recommendation status rul rate =
     (if status = ''critical''
        then ''Immediate maintenance required. Device may fail within '' @ str_int (py_int rul) @ '' days.''
      else if status = ''warning''
        then ''Schedule maintenance soon. Estimated '' @ str_int (py_int rul) @ '' days remaining.''
      else ''Device operating normally. Continue regular monitoring.'')"

text \<open>
  The status and priority chosen in the body of the loop of \<open>assess_device_health\<close>.
\<close>

definition classify_health :: "real \<Rightarrow> real \<Rightarrow> string \<times> string" where
  "classify_health device_rul rate =
     (if device_rul < 30 \<or> rate > 0.3 then (''critical'', ''high'')
      else if device_rul < 90 \<or> rate > 0.15 then (''warning'', ''medium'')
      else (''healthy'', ''low''))"

text \<open>
  One iteration of the loop of \<open>assess_device_health\<close>.  A row of the data frame is the
  triple of its device id, the label of \<open>detect_anomalies\<close> for it (\<open>-1\<close> is anomalous)
  and the prediction of \<open>predict_rul\<close> for it; the frame carries the default index,
  so the rows of a device select the same positions in both arrays.
\<close>

definition assess_device :: "(string \<times> int \<times> real) list \<Rightarrow> string \<Rightarrow> assessment" where
  "assess_device rows d =
     (let device_rows = filter (\<lambda>r. fst r = d) rows;
          device_anomalies = map (\<lambda>r. fst (snd r)) device_rows;
          device_rul = mean (map (\<lambda>r. snd (snd r)) device_rows);
          n_anom = length (filter (\<lambda>a. a = - 1) device_anomalies);
          rate = real n_anom / real (length device_anomalies);
          hp = classify_health device_rul rate
      in \<lparr>device_id = d, health_status = fst hp, priority = snd hp,
          estimated_rul_days = device_rul, anomaly_rate = rate,
          recent_anomalies = n_anom,
          recommendation = generate_recommendation (fst hp) device_rul rate\<rparr>)"

definition assess_device_health :: "(string \<times> int \<times> real) list \<Rightarrow> assessment list" where
  "assess_device_health rows = map (assess_device rows) (unique (map fst rows))"


record task =
  task_device_id :: string
  scheduled_date :: real
  task_priority :: string
  estimated_duration_hours :: nat
  reason :: string
  task_estimated_rul_days :: real

text \<open>
  The dictionary \<open>priority_map\<close> of \<open>generate_maintenance_schedule\<close>; a priority that
  is not a key of it raises \<open>KeyError\<close>.
\<close>

definition priority_map :: "string \<Rightarrow> error + nat" where
  "priority_map p =
     (if p = ''high'' then Inr 3
      else if p = ''medium'' then Inr 2
      else if p = ''low'' then Inr 1
      else Inl KeyError)"

text \<open>
  The sort keys \<open>(priority_map[x['priority']], x['estimated_rul_days'])\<close>, computed for
  every assessment before anything is compared; the first missing priority raises.
\<close>

fun sort_keys :: "assessment list \<Rightarrow> error + ((nat \<times> real) \<times> assessment) list" where
  "sort_keys [] = Inr []"
| "sort_keys (x # xs) =
     (case priority_map (priority x) of
        Inl e \<Rightarrow> Inl e
      | Inr k \<Rightarrow> (case sort_keys xs of
                   Inl e \<Rightarrow> Inl e
                 | Inr ks \<Rightarrow> Inr (((k, estimated_rul_days x), x) # ks)))"

text \<open>
  The loop over the sorted assessments.  Dates are real numbers of days, so
  \<open>current_date + timedelta(days=d)\<close> is an addition; the range limits of Python's
  \<open>datetime\<close> are not modelled.  Python's \<open>min(7, x)\<close> is the minimum of the two numbers.
\<close>

fun schedule_loop :: "real \<Rightarrow> assessment list \<Rightarrow> task list" where
  "schedule_loop current_date [] = []"
| "schedule_loop current_date (a # rest) =
     (if health_status a = ''healthy'' then schedule_loop current_date rest
      else
        (let days_until_maintenance =
               (if priority a = ''high'' then min 7 (estimated_rul_days a * 0.5)
                else if priority a = ''medium'' then min 30 (estimated_rul_days a * 0.7)
                else 90);
             maintenance_date = current_date + days_until_maintenance
         in \<lparr>task_device_id = device_id a, scheduled_date = maintenance_date,
             task_priority = priority a, estimated_duration_hours = 2,
             reason = recommendation a,
             task_estimated_rul_days = estimated_rul_days a\<rparr>
            # schedule_loop current_date rest))"

text \<open>
  \<open>PredictiveMaintenanceModel.generate_maintenance_schedule\<close>.  The first argument is the
  value of \<open>datetime.now()\<close>.  Python's \<open>sorted\<close> is stable and ascending, as is
  \<^const>\<open>sort_key\<close>; the pairs are compared lexicographically.
\<close>

definition generate_maintenance_schedule ::
    "real \<Rightarrow> assessment list \<Rightarrow> int \<Rightarrow> error + task list" where
  "generate_maintenance_schedule current_date assessments max_concurrent =
     (case sort_keys assessments of
        Inl e \<Rightarrow> Inl e
      | Inr keyed \<Rightarrow>
          (let sorted_assessments = map snd (sort_key fst keyed)
           in Inr (schedule_loop current_date sorted_assessments)))"


section \<open>Occupancy changes: models/occupancy_detection.py\<close>

record 't occupancy_event =
  timestamp :: 't
  event :: string
  probability :: real
  confidence :: real

text \<open>The dictionary appended to \<open>events\<close>, the same in both branches of the loop.\<close>

definition make_event :: "real \<Rightarrow> real \<times> 't \<Rightarrow> 't occupancy_event" where
  "make_event threshold pt =
     (let prob = fst pt; is_occupied = (prob \<ge> threshold)
      in \<lparr>timestamp = snd pt,
          event = (if is_occupied then ''occupied'' else ''unoccupied''),
          probability = prob,
          confidence = \<bar>prob - 0.5\<bar> * 2\<rparr>)"

text \<open>
  The loop of \<open>detect_occupancy_change\<close> over the pairs of \<open>zip(occupied_probs,
  data['timestamp'])\<close>, with \<open>current_state\<close> as an argument.
\<close>

fun occupancy_loop :: "real \<Rightarrow> bool option \<Rightarrow> (real \<times> 't) list \<Rightarrow> 't occupancy_event list" where
  "occupancy_loop threshold current_state [] = []"
| "occupancy_loop threshold current_state (pt # rest) =
     (let is_occupied = (fst pt \<ge> threshold)
      in case current_state of
           None \<Rightarrow> make_event threshold pt # occupancy_loop threshold (Some is_occupied) rest
         | Some c \<Rightarrow>
             if is_occupied \<noteq> c
             then make_event threshold pt # occupancy_loop threshold (Some is_occupied) rest
             else occupancy_loop threshold current_state rest)"

text \<open>
  \<open>OccupancyDetectionModel.detect_occupancy_change\<close> on the second column of
  \<open>predict_proba(data)\<close> paired with the timestamps.
\<close>

definition detect_occupancy_change :: "(real \<times> 't) list \<Rightarrow> real \<Rightarrow> 't occupancy_event list" where
  "detect_occupancy_change rows threshold = occupancy_loop threshold None rows"


section \<open>Configuration presets: config/model_config.py\<close>

datatype config_value =
    IntVal int
  | FloatVal real
  | IntList "int list"
  | StrList "string list"

text \<open>A Python dictionary literal, in the order it is written.\<close>

type_synonym config = "(string \<times> config_value) list"

definition ENERGY_FORECASTING :: config where
  "ENERGY_FORECASTING =
     [(''sequence_length'', IntVal 24),
      (''prediction_horizon'', IntVal 12),
      (''hidden_units'', IntList [128, 64, 32]),
      (''dropout_rate'', FloatVal 0.2),
      (''learning_rate'', FloatVal 0.001),
      (''batch_size'', IntVal 32),
      (''epochs'', IntVal 100),
      (''early_stopping_patience'', IntVal 10)]"

definition ANOMALY_DETECTION :: config where
  "ANOMALY_DETECTION =
     [(''contamination'', FloatVal 0.1),
      (''n_estimators'', IntVal 100),
      (''max_samples'', IntVal 256),
      (''threshold'', FloatVal 0.8),
      (''window_size'', IntVal 50)]"

definition BEHAVIOR_PREDICTION :: config where
  "BEHAVIOR_PREDICTION =
     [(''sequence_length'', IntVal 48),
      (''hidden_units'', IntList [256, 128, 64]),
      (''dropout_rate'', FloatVal 0.3),
      (''learning_rate'', FloatVal 0.0005),
      (''batch_size'', IntVal 64),
      (''epochs'', IntVal 150)]"

definition OCCUPANCY_DETECTION :: config where
  "OCCUPANCY_DETECTION =
     [(''n_estimators'', IntVal 200),
      (''max_depth'', IntVal 10),
      (''min_samples_split'', IntVal 5),
      (''min_samples_leaf'', IntVal 2),
      (''features'', StrList [''motion'', ''temperature'', ''humidity'', ''light'', ''sound''])]"

definition PREDICTIVE_MAINTENANCE :: config where
  "PREDICTIVE_MAINTENANCE =
     [(''sequence_length'', IntVal 100),
      (''threshold'', FloatVal 0.7),
      (''warning_threshold'', FloatVal 0.5),
      (''features'', StrList [''usage_hours'', ''error_count'', ''temperature'', ''vibration''])]"

text \<open>\<open>ModelConfig.get_config\<close>: \<open>configs.get(model_type, {})\<close>.\<close>

definition get_config :: "string \<Rightarrow> config" where
  "get_config model_type =
     (let configs =
            [(''energy_forecasting'', ENERGY_FORECASTING),
             (''anomaly_detection'', ANOMALY_DETECTION),
             (''behavior_prediction'', BEHAVIOR_PREDICTION),
             (''occupancy_detection'', OCCUPANCY_DETECTION),
             (''predictive_maintenance'', PREDICTIVE_MAINTENANCE)]
      in case map_of configs model_type of Some c \<Rightarrow> c | None \<Rightarrow> [])"


section \<open>Model versions: services/model_versioning.py\<close>

text \<open>
  A Python dictionary with string keys whose order matters little here: an association
  list, where an assignment \<open>d[k] = v\<close> replaces the value of an existing key in place
  and appends a new key at the end.
\<close>

fun dict_set :: "'k \<Rightarrow> 'v \<Rightarrow> ('k \<times> 'v) list \<Rightarrow> ('k \<times> 'v) list" where
  "dict_set k v [] = [(k, v)]"
| "dict_set k v (p # ps) = (if fst p = k then (k, v) # ps else p # dict_set k v ps)"















section \<open>Deployments: services/model_deployment.py\<close>

record deployment =
  model_name :: string
  deployed_version :: string
  environment :: string
  endpoint :: string
  deployed_at :: string
  status :: string
  metrics :: "(string \<times> real) list"

text \<open>
  The registry \<open>self.deployments\<close>: environment to the list of its deployment records.
  Every record is created by \<open>deploy_model\<close> and appended once, so a reference to a
  record is its position in the list of its environment, and an assignment to a field
  of the referenced record is an update of the list at that position.  Writing the
  registry to its JSON file is not modelled.
\<close>

type_synonym deployment_store = "string \<rightharpoonup> deployment list"

text \<open>\<open>ModelDeployment.__init__\<close>; \<open>now\<close> is the reading of the clock.\<close>

definition ModelDeployment :: "string \<Rightarrow> string \<Rightarrow> string \<Rightarrow> string \<Rightarrow> string \<Rightarrow> deployment" where
  "ModelDeployment name ver env ep now =
     \<lparr>model_name = name, deployed_version = ver, environment = env, endpoint = ep,
      deployed_at = now, status = ''active'',
      metrics = [(''requests'', 0), (''errors'', 0), (''avg_latency'', 0)]\<rparr>"

text \<open>
  The loop of \<open>get_active_deployment\<close> over \<open>reversed(self.deployments[environment])\<close>:
  the position of the first match from the end.
\<close>

definition active_index :: "deployment list \<Rightarrow> string \<Rightarrow> nat option" where
  "active_index ds name =
     (case filter (\<lambda>i. model_name (ds ! i) = name \<and> status (ds ! i) = ''active'')
             (rev [0..<length ds]) of
        [] \<Rightarrow> None
      | i # _ \<Rightarrow> Some i)"

definition get_active_deployment :: "deployment_store \<Rightarrow> string \<Rightarrow> string \<Rightarrow> nat option" where
  "get_active_deployment deployments env name =
     (case deployments env of
        None \<Rightarrow> None
      | Some ds \<Rightarrow> active_index ds name)"

text \<open>\<open>ModelDeploymentService.deploy_model\<close>: the new record and the registry afterwards.\<close>

definition deploy_model ::
    "deployment_store \<Rightarrow> string \<Rightarrow> string \<Rightarrow> string \<Rightarrow> string \<Rightarrow> string
       \<Rightarrow> deployment \<times> deployment_store" where
  "deploy_model deployments name ver env ep now =
     (let deployment = ModelDeployment name ver env ep now;
          deployments1 = (case deployments env of
                            None \<Rightarrow> deployments(env \<mapsto> [])
                          | Some _ \<Rightarrow> deployments);
          ds = (case deployments1 env of None \<Rightarrow> [] | Some l \<Rightarrow> l);
          existing = get_active_deployment deployments1 env name;
          ds1 = (case existing of
                   None \<Rightarrow> ds
                 | Some i \<Rightarrow> ds[i := (ds ! i)\<lparr>status := ''inactive''\<rparr>])
      in (deployment, deployments1(env \<mapsto> ds1 @ [deployment])))"

text \<open>
  \<open>ModelDeploymentService.rollback_deployment\<close>: the positions of the records of the
  model, the last two of them as \<open>current\<close> and \<open>previous\<close>, and the two assignments in
  the order of the source.
\<close>

definition rollback_deployment ::
    "deployment_store \<Rightarrow> string \<Rightarrow> string \<Rightarrow> deployment option \<times> deployment_store" where
  "rollback_deployment deployments env name =
     (case deployments env of
        None \<Rightarrow> (None, deployments)
      | Some ds \<Rightarrow>
          (let idx = filter (\<lambda>i. model_name (ds ! i) = name) [0..<length ds]
           in if length idx < 2 then (None, deployments)
              else (let current = idx ! (length idx - 1);
                        previous = idx ! (length idx - 2);
                        ds1 = ds[current := (ds ! current)\<lparr>status := ''rolled_back''\<rparr>];
                        ds2 = ds1[previous := (ds1 ! previous)\<lparr>status := ''active''\<rparr>]
                    in (Some (ds2 ! previous), deployments(env \<mapsto> ds2)))))"

text \<open>\<open>ModelDeploymentService.update_metrics\<close>, with \<open>dict.update\<close> as a fold.\<close>

definition update_metrics ::
    "deployment_store \<Rightarrow> string \<Rightarrow> string \<Rightarrow> (string \<times> real) list \<Rightarrow> deployment_store" where
  "update_metrics deployments env name new_metrics =
     (case get_active_deployment deployments env name of
        None \<Rightarrow> deployments
      | Some i \<Rightarrow>
          (let ds = (case deployments env of None \<Rightarrow> [] | Some l \<Rightarrow> l);
               d = ds ! i;
               m = foldl (\<lambda>acc kv. dict_set (fst kv) (snd kv) acc) (metrics d) new_metrics
           in deployments(env \<mapsto> ds[i := d\<lparr>metrics := m\<rparr>])))"

text \<open>
  The registries that the three mutating operations produce from the empty registry.
\<close>

inductive reachable :: "deployment_store \<Rightarrow> bool" where
  init: "reachable Map.empty"
| deploy: "reachable s \<Longrightarrow> reachable (snd (deploy_model s name ver env ep now))"
| rollback: "reachable s \<Longrightarrow> reachable (snd (rollback_deployment s env name))"
| metrics: "reachable s \<Longrightarrow> reachable (update_metrics s env name new_metrics)"


text \<open>
  The two lines \<open>existing = self.get_active_deployment(...)\<close> and
  \<open>existing.status = 'inactive'\<close> of \<open>deploy_model\<close> on the list of one environment.
\<close>

definition deactivate :: "deployment list \<Rightarrow> string \<Rightarrow> deployment list" where
  "deactivate ds name =
     (case active_index ds name of
        None \<Rightarrow> ds
      | Some i \<Rightarrow> ds[i := (ds ! i)\<lparr>status := ''inactive''\<rparr>])"

text \<open>
  The invariant of the list of one environment: every record carries the environment
  of its list; of two records of one model the earlier is not active when the later
  is; and a record followed by two records of its model is not active.
\<close>

definition inv_list :: "string \<Rightarrow> deployment list \<Rightarrow> bool" where
  "inv_list env ds \<longleftrightarrow>
     (\<forall>i < length ds. environment (ds ! i) = env) \<and>
     (\<forall>i j. i < j \<and> j < length ds \<and> model_name (ds ! i) = model_name (ds ! j)
            \<and> status (ds ! j) = ''active'' \<longrightarrow> status (ds ! i) \<noteq> ''active'') \<and>
     (\<forall>i j k. i < j \<and> j < k \<and> k < length ds \<and> model_name (ds ! i) = model_name (ds ! k)
            \<and> model_name (ds ! j) = model_name (ds ! k) \<longrightarrow> status (ds ! i) \<noteq> ''active'')"

definition inv :: "deployment_store \<Rightarrow> bool" where
  "inv s \<longleftrightarrow> (\<forall>env ds. s env = Some ds \<longrightarrow> inv_list env ds)"


section \<open>Time series forecaster: models/time_series_forecasting.py\<close>

text \<open>
  A two-dimensional numpy array with its shape, which an array with no row or no column
  still has.  \<open>cells\<close> holds \<open>nrows\<close> rows of \<open>ncols\<close> entries.
\<close>

record matrix =
  nrows :: nat
  ncols :: nat
  cells :: "real list list"

record forecaster =
  window_size :: nat
  forecast_horizon :: nat
  weights :: "matrix option"
  bias :: "real list option"
  scaler_mean :: real
  scaler_std :: real

text \<open>\<open>TimeSeriesForecaster.__init__\<close>; \<open>None\<close> is Python's \<open>None\<close>.\<close>

definition TimeSeriesForecaster :: "nat \<Rightarrow> nat \<Rightarrow> forecaster" where
  "TimeSeriesForecaster ws fh =
     \<lparr>window_size = ws, forecast_horizon = fh, weights = None, bias = None,
      scaler_mean = 0, scaler_std = 1\<rparr>"

text \<open>
  \<open>normalize\<close> stores the mean and the deviation in the forecaster and returns the
  scaled series.  \<open>np_mean\<close> and \<open>np_std\<close> are numpy's two reductions with the results
  that the program gets from them in double precision: they are inputs of the model,
  so that the test \<open>self.scaler_std == 0\<close> is on the deviation the program has computed
  and not on the exact one.  (Of an empty series numpy returns NaN, which is not zero
  and for which no real number stands.)
\<close>

definition normalize ::
    "(real list \<Rightarrow> real) \<Rightarrow> (real list \<Rightarrow> real) \<Rightarrow> forecaster \<Rightarrow> real list
       \<Rightarrow> forecaster \<times> real list" where
  "normalize np_mean np_std st xs =
     (let m = np_mean xs;
          sd = np_std xs;
          sd1 = (if sd = 0 then 1 else sd);
          st1 = st\<lparr>scaler_mean := m, scaler_std := sd1\<rparr>
      in (st1, map (\<lambda>x. (x - m) / sd1) xs))"

definition denormalize :: "forecaster \<Rightarrow> real list \<Rightarrow> real list" where
  "denormalize st xs = map (\<lambda>x. x * scaler_std st + scaler_mean st) xs"

text \<open>
  \<open>create_sequences\<close>: \<open>range(len(data) - window_size - forecast_horizon + 1)\<close> is empty
  when its argument is not positive; the slice \<open>data[i:i + n]\<close> is \<open>take n (drop i data)\<close>.
\<close>

definition create_sequences :: "forecaster \<Rightarrow> real list \<Rightarrow> real list list \<times> real list list" where
  "create_sequences st xs =
     (let n = nat (int (length xs) - int (window_size st) - int (forecast_horizon st) + 1)
      in (map (\<lambda>i. take (window_size st) (drop i xs)) [0..<n],
          map (\<lambda>i. take (forecast_horizon st) (drop (i + window_size st) xs)) [0..<n]))"

text \<open>
  \<open>np.dot(x, W)\<close> for a vector of \<open>nrows W\<close> entries, and \<open>W + lr * np.outer(x, e)\<close>.
\<close>

definition dot :: "real list \<Rightarrow> matrix \<Rightarrow> real list" where
  "dot x W = map (\<lambda>j. sum_list (map (\<lambda>i. x ! i * (cells W ! i ! j)) [0..<nrows W]))
               [0..<ncols W]"

definition add_outer :: "matrix \<Rightarrow> real \<Rightarrow> real list \<Rightarrow> real list \<Rightarrow> matrix" where
  "add_outer W lr x e =
     W\<lparr>cells := map (\<lambda>i. map (\<lambda>j. cells W ! i ! j + lr * (x ! i * e ! j)) [0..<ncols W])
                   [0..<nrows W]\<rparr>"

text \<open>
  The body of the inner loop of \<open>train\<close> for one pair \<open>(X[i], y[i])\<close>.  The window has
  \<open>window_size\<close> entries and the target \<open>forecast_horizon\<close> entries (lemma
  \<open>create_sequences_shape\<close>), so every array operation is between equal shapes.
\<close>

definition train_sample ::
    "real \<Rightarrow> matrix \<times> real list \<Rightarrow> real list \<times> real list \<Rightarrow> matrix \<times> real list" where
  "train_sample lr Wb xy =
     (let W = fst Wb; b = snd Wb; x = fst xy; yv = snd xy;
          prediction = map2 (+) (dot x W) b;
          err = map2 (-) yv prediction
      in (add_outer W lr x err, map2 (\<lambda>bj ej. bj + lr * ej) b err))"

definition train_epoch ::
    "real \<Rightarrow> real list list \<Rightarrow> real list list \<Rightarrow> matrix \<times> real list \<Rightarrow> matrix \<times> real list" where
  "train_epoch lr X y Wb = foldl (train_sample lr) Wb (zip X y)"

text \<open>
  \<open>TimeSeriesForecaster.train\<close>.  \<open>rnd i j\<close> is the sample that \<open>np.random.randn\<close> draws
  for the entry \<open>(i, j)\<close>.  The result is the exception, if any, and the forecaster
  afterwards: \<open>normalize\<close> has stored the scaler before the check of \<open>len(X)\<close> raises.
  The loss, which is only printed, is not computed.
\<close>

definition train ::
    "(real list \<Rightarrow> real) \<Rightarrow> (real list \<Rightarrow> real) \<Rightarrow> (nat \<Rightarrow> nat \<Rightarrow> real) \<Rightarrow> forecaster
       \<Rightarrow> real list \<Rightarrow> nat \<Rightarrow> real \<Rightarrow> error option \<times> forecaster" where
  "train np_mean np_std rnd st xs epochs lr =
     (let (st1, normalized_data) = normalize np_mean np_std st xs;
          (X, y) = create_sequences st1 normalized_data
      in if length X = 0 then (Some ValueError, st1)
         else
           (let W0 = \<lparr>nrows = window_size st1, ncols = forecast_horizon st1,
                      cells = map (\<lambda>i. map (\<lambda>j. rnd i j * 0.01) [0..<forecast_horizon st1])
                                [0..<window_size st1]\<rparr>;
                b0 = replicate (forecast_horizon st1) 0;
                Wb = ((train_epoch lr X y) ^^ epochs) (W0, b0)
            in (None, st1\<lparr>weights := Some (fst Wb), bias := Some (snd Wb)\<rparr>)))"

text \<open>
  Addition of two one-dimensional arrays with numpy's broadcasting: equal lengths, or
  one of the two of length one.
\<close>

definition np_add :: "real list \<Rightarrow> real list \<Rightarrow> error + real list" where
  "np_add u v =
     (if length u = length v then Inr (map2 (+) u v)
      else if length u = 1 then Inr (map (\<lambda>a. hd u + a) v)
      else if length v = 1 then Inr (map (\<lambda>a. a + hd v) u)
      else Inl ValueError)"

text \<open>
  \<open>TimeSeriesForecaster.forecast\<close>: the result and the forecaster afterwards.  The slice
  \<open>recent_data[-window_size:]\<close> is the whole list when \<open>window_size\<close> is zero.  With
  \<open>weights\<close> still \<open>None\<close>, \<open>np.dot\<close> takes \<open>None\<close> for a zero-dimensional operand and
  multiplies it with every entry of the window, which raises \<open>TypeError\<close> at the first
  entry and nothing when the window has none; the addition of a bias that is \<open>None\<close>
  does the same with the entries of the product.  A window whose length is not the
  number of rows of the weights makes \<open>np.dot\<close> raise \<open>ValueError\<close>.
\<close>

definition forecast :: "forecaster \<Rightarrow> real list \<Rightarrow> (error + real list) \<times> forecaster" where
  "forecast st recent_data =
     (if length recent_data < window_size st then (Inl ValueError, st)
      else
        (let recent_array = (if window_size st = 0 then recent_data
                             else drop (length recent_data - window_size st) recent_data);
             normalized_recent = map (\<lambda>x. (x - scaler_mean st) / scaler_std st) recent_array;
             product = (case weights st of
                          None \<Rightarrow> if normalized_recent = [] then Inr [] else Inl TypeError
                        | Some W \<Rightarrow>
                            if length normalized_recent \<noteq> nrows W then Inl ValueError
                            else Inr (dot normalized_recent W))
         in case product of
              Inl e \<Rightarrow> (Inl e, st)
            | Inr d \<Rightarrow>
                (case (case bias st of
                         None \<Rightarrow> if d = [] then Inr [] else Inl TypeError
                       | Some b \<Rightarrow> np_add d b) of
                   Inl e \<Rightarrow> (Inl e, st)
                 | Inr prediction \<Rightarrow> (Inr (denormalize st prediction), st))))"

text \<open>
  A forecaster as a successful \<open>train\<close> leaves it: weights of shape
  \<open>window_size\<close> by \<open>forecast_horizon\<close> and a bias of \<open>forecast_horizon\<close> entries.
\<close>

definition trained :: "forecaster \<Rightarrow> bool" where
  "trained st \<longleftrightarrow>
     (case weights st of
        None \<Rightarrow> False
      | Some W \<Rightarrow>
          (case bias st of
             None \<Rightarrow> False
           | Some b \<Rightarrow> nrows W = window_size st \<and> ncols W = forecast_horizon st
                       \<and> length b = forecast_horizon st))"


section \<open>Recommendation engine: models/recommendation_engine.py\<close>

text \<open>
  The fields of \<open>RecommendationEngine\<close>.  The two factor arrays are lists of rows, the
  two index dictionaries are maps.  (\<open>np.mean\<close> of no rating is NaN; here the mean of
  the empty list is \<open>0 / 0 = 0\<close>.)
\<close>

record recommender =
  num_factors :: nat
  user_factors :: "real list list"
  item_factors :: "real list list"
  user_biases :: "real list"
  item_biases :: "real list"
  global_mean :: real
  user_to_idx :: "string \<rightharpoonup> nat"
  item_to_idx :: "string \<rightharpoonup> nat"

text \<open>\<open>np.dot\<close> of two vectors of one length.\<close>

definition vdot :: "real list \<Rightarrow> real list \<Rightarrow> real" where
  "vdot u v = sum_list (map2 (*) u v)"

text \<open>
  \<open>RecommendationEngine.predict_rating\<close>.  An index outside an array raises
  \<open>IndexError\<close> and rows of different lengths make \<open>np.dot\<close> raise \<open>ValueError\<close>.
\<close>

definition predict_rating :: "recommender \<Rightarrow> string \<Rightarrow> string \<Rightarrow> error + real" where
  "predict_rating st user item =
     (case user_to_idx st user of
        None \<Rightarrow> Inr (global_mean st)
      | Some user_idx \<Rightarrow>
          (case item_to_idx st item of
             None \<Rightarrow> Inr (global_mean st)
           | Some item_idx \<Rightarrow>
               if \<not> (user_idx < length (user_biases st) \<and> item_idx < length (item_biases st)
                      \<and> user_idx < length (user_factors st)
                      \<and> item_idx < length (item_factors st))
               then Inl IndexError
               else if length (user_factors st ! user_idx) \<noteq> length (item_factors st ! item_idx)
               then Inl ValueError
               else Inr (global_mean st + user_biases st ! user_idx + item_biases st ! item_idx
                         + vdot (user_factors st ! user_idx) (item_factors st ! item_idx))))"

text \<open>
  The body of the inner loop of \<open>fit\<close> for one interaction.  \<open>user_factor\<close> and
  \<open>item_factor\<close> are views of the rows: the update of the item row reads the user row
  as the line before has just left it, and the item row as it was.
\<close>

definition sgd_step ::
    "real \<Rightarrow> real \<Rightarrow> recommender \<Rightarrow> string \<times> string \<times> real \<Rightarrow> error option \<times> recommender" where
  "sgd_step learning_rate regularization st x =
     (let user = fst x; item = fst (snd x); rating = snd (snd x)
      in case user_to_idx st user of
           None \<Rightarrow> (Some KeyError, st)
         | Some user_idx \<Rightarrow>
             (case item_to_idx st item of
                None \<Rightarrow> (Some KeyError, st)
              | Some item_idx \<Rightarrow>
                  (case predict_rating st user item of
                     Inl e \<Rightarrow> (Some e, st)
                   | Inr prediction \<Rightarrow>
                       (let err = rating - prediction;
                            user_factor = user_factors st ! user_idx;
                            item_factor = item_factors st ! item_idx;
                            user_factor1 =
                              map2 (\<lambda>u v. u + learning_rate * (err * v - regularization * u))
                                user_factor item_factor;
                            item_factor1 =
                              map2 (\<lambda>v u. v + learning_rate * (err * u - regularization * v))
                                item_factor user_factor1;
                            ub = user_biases st ! user_idx;
                            ib = item_biases st ! item_idx
                        in (None,
                            st\<lparr>user_factors := (user_factors st)[user_idx := user_factor1],
                               item_factors := (item_factors st)[item_idx := item_factor1],
                               user_biases := (user_biases st)
                                  [user_idx := ub + learning_rate * (err - regularization * ub)],
                               item_biases := (item_biases st)
                                  [item_idx := ib + learning_rate * (err - regularization * ib)]\<rparr>)))))"

text \<open>The inner loop: every interaction in the order of the input.\<close>

fun run_interactions ::
    "real \<Rightarrow> real \<Rightarrow> recommender \<Rightarrow> (string \<times> string \<times> real) list
       \<Rightarrow> error option \<times> recommender" where
  "run_interactions lr reg st [] = (None, st)"
| "run_interactions lr reg st (x # xs) =
     (case sgd_step lr reg st x of
        (Some e, st1) \<Rightarrow> (Some e, st1)
      | (None, st1) \<Rightarrow> run_interactions lr reg st1 xs)"

text \<open>
  The outer loop.  After the inner loop \<open>total_error / len(interactions)\<close> divides by
  zero when there is no interaction.
\<close>

fun run_epochs ::
    "real \<Rightarrow> real \<Rightarrow> (string \<times> string \<times> real) list \<Rightarrow> nat \<Rightarrow> recommender
       \<Rightarrow> error option \<times> recommender" where
  "run_epochs lr reg interactions 0 st = (None, st)"
| "run_epochs lr reg interactions (Suc n) st =
     (case run_interactions lr reg st interactions of
        (Some e, st1) \<Rightarrow> (Some e, st1)
      | (None, st1) \<Rightarrow>
          if length interactions = 0 then (Some ZeroDivisionError, st1)
          else run_epochs lr reg interactions n st1)"

text \<open>
  \<open>RecommendationEngine.fit\<close>.  \<open>rnd_user i k\<close> and \<open>rnd_item i k\<close> are the samples that
  \<open>np.random.normal\<close> draws for the two factor arrays.  The users and the items are
  numbered in the order of their first appearance; Python numbers them in the iteration
  order of a set, which is another numbering of the same identifiers.
\<close>

definition fit ::
    "(nat \<Rightarrow> nat \<Rightarrow> real) \<Rightarrow> (nat \<Rightarrow> nat \<Rightarrow> real) \<Rightarrow> recommender
       \<Rightarrow> (string \<times> string \<times> real) list \<Rightarrow> nat \<Rightarrow> real \<Rightarrow> real
       \<Rightarrow> error option \<times> recommender" where
  "fit rnd_user rnd_item st interactions epochs learning_rate regularization =
     (let users = unique (map fst interactions);
          items = unique (map (\<lambda>x. fst (snd x)) interactions);
          ratings = map (\<lambda>x. snd (snd x)) interactions;
          num_users = length users;
          num_items = length items;
          st1 = st\<lparr>user_to_idx := map_of (zip users [0..<num_users]),
                   item_to_idx := map_of (zip items [0..<num_items]),
                   global_mean := mean ratings,
                   user_factors := map (\<lambda>i. map (\<lambda>k. rnd_user i k) [0..<num_factors st])
                                     [0..<num_users],
                   item_factors := map (\<lambda>i. map (\<lambda>k. rnd_item i k) [0..<num_factors st])
                                     [0..<num_items],
                   user_biases := replicate num_users 0,
                   item_biases := replicate num_items 0\<rparr>
      in run_epochs learning_rate regularization interactions epochs st1)"


text \<open>\<open>RecommendationEngine.__init__\<close>; the empty dictionaries and arrays are empty lists.\<close>

definition RecommendationEngine :: "nat \<Rightarrow> recommender" where
  "RecommendationEngine nf =
     \<lparr>num_factors = nf, user_factors = [], item_factors = [], user_biases = [],
      item_biases = [], global_mean = 0, user_to_idx = Map.empty, item_to_idx = Map.empty\<rparr>"

text \<open>
  The shapes that \<open>fit\<close> gives the arrays: one bias and one row of \<open>nf\<close> factors for each
  of the \<open>nu\<close> users and the \<open>ni\<close> items.
\<close>

definition shaped :: "nat \<Rightarrow> nat \<Rightarrow> nat \<Rightarrow> recommender \<Rightarrow> bool" where
  "shaped nu ni nf st \<longleftrightarrow>
     length (user_biases st) = nu \<and> length (item_biases st) = ni
     \<and> length (user_factors st) = nu \<and> length (item_factors st) = ni
     \<and> list_all (\<lambda>r. length r = nf) (user_factors st)
     \<and> list_all (\<lambda>r. length r = nf) (item_factors st)"


section \<open>Severity schemes\<close>

text \<open>
  C1 as stated fails in its second half: \<open>calculate_severity\<close> maps -0.6 to critical
  (it is not above -0.5) and -0.2 to medium (it is above -0.3 but not above -0.1), so
  its answers on the four scores are not critical, critical, high, low.
\<close>

theorem calculate_severity_counterexample:
  "map calculate_severity [- 0.95, - 0.8, - 0.6, - 0.2]
     \<noteq> [''critical'', ''critical'', ''high'', ''low'']"
  by (simp add: calculate_severity_def)

text \<open>
  C1, amended.  For the scores -0.95, -0.8, -0.6 and -0.2 the severities of
  \<open>detect_anomalies\<close> are high, medium, low, normal, whatever the labels and the
  threshold are; \<open>calculate_severity\<close> gives critical, critical, critical, medium on
  the same scores; the two schemes differ on each of the four.
\<close>

theorem severity_schemes_disagree:
  "map severity (detect_anomalies [(p1, - 0.95), (p2, - 0.8), (p3, - 0.6), (p4, - 0.2)] th)
     = [''high'', ''medium'', ''low'', ''normal'']
   \<and> map calculate_severity [- 0.95, - 0.8, - 0.6, - 0.2]
     = [''critical'', ''critical'', ''critical'', ''medium'']
   \<and> list_all2 (\<lambda>r s. severity r \<noteq> calculate_severity s)
        (detect_anomalies [(p1, - 0.95), (p2, - 0.8), (p3, - 0.6), (p4, - 0.2)] th)
        [- 0.95, - 0.8, - 0.6, - 0.2]"
  by (simp add: detect_anomalies_def detect_row_def calculate_severity_def Let_def)


section \<open>Health classification\<close>

lemma assess_device_status:
  "health_status (assess_device rows d) = fst (classify_health
     (estimated_rul_days (assess_device rows d)) (anomaly_rate (assess_device rows d)))"
  "priority (assess_device rows d) = snd (classify_health
     (estimated_rul_days (assess_device rows d)) (anomaly_rate (assess_device rows d)))"
  "device_id (assess_device rows d) = d"
  "estimated_rul_days (assess_device rows d)
     = mean (map (\<lambda>r. snd (snd r)) (filter (\<lambda>r. fst r = d) rows))"
  "anomaly_rate (assess_device rows d)
     = real (length (filter (\<lambda>r. fst (snd r) = - 1) (filter (\<lambda>r. fst r = d) rows)))
       / real (length (filter (\<lambda>r. fst r = d) rows))"
  by (simp_all add: assess_device_def Let_def filter_map comp_def)

text \<open>
  C2.  Every assessment that \<open>assess_device_health\<close> returns carries the mean of the
  RUL predictions of the device's rows and the fraction of its rows labelled -1; its
  status is critical exactly when that mean is below 30 or that rate is above 0.3,
  otherwise warning exactly when the mean is below 90 or the rate is above 0.15,
  otherwise healthy; the priority is high, medium, low accordingly.  With no anomalous
  row, a RUL of 29 is critical, of 30 is warning, of 91 is healthy.
\<close>

theorem assess_device_health_classification:
  assumes "a \<in> set (assess_device_health rows)"
  shows "estimated_rul_days a
           = mean (map (\<lambda>r. snd (snd r)) (filter (\<lambda>r. fst r = device_id a) rows))
       \<and> anomaly_rate a
           = real (length (filter (\<lambda>r. fst (snd r) = - 1) (filter (\<lambda>r. fst r = device_id a) rows)))
             / real (length (filter (\<lambda>r. fst r = device_id a) rows))
       \<and> ((health_status a = ''critical'') = (estimated_rul_days a < 30 \<or> anomaly_rate a > 0.3))
       \<and> ((health_status a = ''warning'')
            = ((30 \<le> estimated_rul_days a \<and> anomaly_rate a \<le> 0.3)
               \<and> (estimated_rul_days a < 90 \<or> anomaly_rate a > 0.15)))
       \<and> ((health_status a = ''healthy'')
            = (90 \<le> estimated_rul_days a \<and> anomaly_rate a \<le> 0.15))
       \<and> ((priority a = ''high'') = (health_status a = ''critical''))
       \<and> ((priority a = ''medium'') = (health_status a = ''warning''))
       \<and> ((priority a = ''low'') = (health_status a = ''healthy''))
       \<and> map (\<lambda>x. (health_status x, priority x)) (assess_device_health [(''d'', 1, 29)])
            = [(''critical'', ''high'')]
       \<and> map (\<lambda>x. (health_status x, priority x)) (assess_device_health [(''d'', 1, 30)])
            = [(''warning'', ''medium'')]
       \<and> map (\<lambda>x. (health_status x, priority x)) (assess_device_health [(''d'', 1, 91)])
            = [(''healthy'', ''low'')]"
proof -
  from assms obtain d where a: "a = assess_device rows d"
    by (auto simp: assess_device_health_def)
  have fields: "estimated_rul_days a
           = mean (map (\<lambda>r. snd (snd r)) (filter (\<lambda>r. fst r = device_id a) rows))"
    "anomaly_rate a
           = real (length (filter (\<lambda>r. fst (snd r) = - 1) (filter (\<lambda>r. fst r = device_id a) rows)))
             / real (length (filter (\<lambda>r. fst r = device_id a) rows))"
    unfolding a assess_device_status(3) by (rule assess_device_status)+
  have st: "health_status a = fst (classify_health (estimated_rul_days a) (anomaly_rate a))"
    and pr: "priority a = snd (classify_health (estimated_rul_days a) (anomaly_rate a))"
    unfolding a by (rule assess_device_status)+
  have cls: "(health_status a = ''critical'') = (estimated_rul_days a < 30 \<or> anomaly_rate a > 0.3)"
    "(health_status a = ''warning'')
            = ((30 \<le> estimated_rul_days a \<and> anomaly_rate a \<le> 0.3)
               \<and> (estimated_rul_days a < 90 \<or> anomaly_rate a > 0.15))"
    "(health_status a = ''healthy'')
            = (90 \<le> estimated_rul_days a \<and> anomaly_rate a \<le> 0.15)"
    "(priority a = ''high'') = (health_status a = ''critical'')"
    "(priority a = ''medium'') = (health_status a = ''warning'')"
    "(priority a = ''low'') = (health_status a = ''healthy'')"
    unfolding st pr classify_health_def by (auto split: if_splits)
  have ex: "map (\<lambda>x. (health_status x, priority x)) (assess_device_health [(''d'', 1, 29)])
            = [(''critical'', ''high'')]"
    "map (\<lambda>x. (health_status x, priority x)) (assess_device_health [(''d'', 1, 30)])
            = [(''warning'', ''medium'')]"
    "map (\<lambda>x. (health_status x, priority x)) (assess_device_health [(''d'', 1, 91)])
            = [(''healthy'', ''low'')]"
    by (simp_all add: assess_device_health_def unique_def assess_device_def Let_def mean_def
        classify_health_def)
  from fields cls ex show ?thesis by blast
qed

theorem assess_device_health_classification_witness:
  "assess_device [(''d'', 1, 29)] ''d'' \<in> set (assess_device_health [(''d'', 1, 29)])
   \<and> health_status (assess_device [(''d'', 1, 29)] ''d'') = ''critical''
   \<and> estimated_rul_days (assess_device [(''d'', 1, 29)] ''d'') = 29
   \<and> anomaly_rate (assess_device [(''d'', 1, 29)] ''d'') = 0"
proof -
  have h: "assess_device [(''d'', 1, 29)] ''d'' \<in> set (assess_device_health [(''d'', 1, 29)])"
    by (simp add: assess_device_health_def unique_def)
  have v: "estimated_rul_days (assess_device [(''d'', 1, 29)] ''d'') = 29"
    "anomaly_rate (assess_device [(''d'', 1, 29)] ''d'') = 0"
    by (simp_all add: assess_device_def Let_def mean_def)
  from assess_device_health_classification [OF h] v h show ?thesis by simp
qed


section \<open>Maintenance schedule\<close>

text \<open>
  C9.  For every list of assessments and every current time, two calls of
  \<open>generate_maintenance_schedule\<close> that differ only in \<open>max_concurrent\<close> return the same
  result: the same schedule, or the same \<open>KeyError\<close> when a priority is unknown.
\<close>

theorem schedule_ignores_max_concurrent:
  "generate_maintenance_schedule now assessments mc1
     = generate_maintenance_schedule now assessments mc2"
  by (simp add: generate_maintenance_schedule_def)


section \<open>Occupancy change events\<close>

lemma event_make_event:
  "(event (make_event th r) = ''occupied'') = (th \<le> fst r)"
  by (simp add: make_event_def Let_def)

text \<open>
  Appending one sample to the input appends at most one event; whether it does depends
  on the state left by the samples before it.
\<close>

lemma occupancy_loop_snoc:
  "occupancy_loop th cur (rows @ [r]) =
     occupancy_loop th cur rows @
       (if (case (if rows = [] then cur else Some (th \<le> fst (last rows))) of
              None \<Rightarrow> True | Some c \<Rightarrow> (th \<le> fst r) \<noteq> c)
        then [make_event th r] else [])"
proof (induction rows arbitrary: cur)
  case Nil
  show ?case by (simp add: Let_def split: option.splits)
next
  case (Cons x xs)
  show ?case by (simp add: Cons.IH Let_def split: option.splits)
qed

text \<open>
  The state of the last event emitted so far (or the initial state when none was) is
  the thresholded state of the last sample read.
\<close>

lemma occupancy_loop_last_state:
  "rows \<noteq> [] \<Longrightarrow>
     (if occupancy_loop th (Some c) rows = [] then c
      else event (last (occupancy_loop th (Some c) rows)) = ''occupied'')
     = (th \<le> fst (last rows))"
proof (induction rows arbitrary: c)
  case Nil
  then show ?case by simp
next
  case (Cons x xs)
  show ?case
  proof (cases "xs = []")
    case True
    then show ?thesis by (auto simp: Let_def event_make_event)
  next
    case False
    from Cons.IH[OF False, of c] Cons.IH[OF False, of "th \<le> fst x"] False
    show ?thesis by (auto simp: Let_def event_make_event)
  qed
qed

lemma detect_first:
  "detect_occupancy_change (r # rs) th \<noteq> []"
  "hd (detect_occupancy_change (r # rs) th) = make_event th r"
  by (simp_all add: detect_occupancy_change_def Let_def)

lemma detect_last_state:
  assumes "rows \<noteq> []"
  shows "(event (last (detect_occupancy_change rows th)) = ''occupied'') = (th \<le> fst (last rows))"
proof -
  from assms obtain r rs where rows: "rows = r # rs" by (cases rows) auto
  show ?thesis
  proof (cases "rs = []")
    case True
    then show ?thesis by (simp add: rows detect_occupancy_change_def Let_def event_make_event)
  next
    case False
    from occupancy_loop_last_state[OF False, of th "th \<le> fst r"] False
    show ?thesis by (auto simp add: rows detect_occupancy_change_def Let_def event_make_event)
  qed
qed

lemma detect_snoc:
  assumes "rows \<noteq> []"
  shows "detect_occupancy_change (rows @ [r]) th =
     detect_occupancy_change rows th @
       (if (th \<le> fst r) \<noteq> (event (last (detect_occupancy_change rows th)) = ''occupied'')
        then [make_event th r] else [])"
  unfolding detect_last_state[OF assms]
  using assms by (simp add: detect_occupancy_change_def occupancy_loop_snoc)

lemma occupancy_loop_subset:
  "set (occupancy_loop th cur rows) \<subseteq> make_event th ` set rows"
  by (induction rows arbitrary: cur) (auto simp: Let_def split: option.splits)

text \<open>
  C6.  \<open>detect_occupancy_change\<close> emits nothing on no samples and the event of the first
  sample first.  Reading one more sample \<open>r\<close> after a non-empty sequence \<open>rows\<close> adds an
  event for \<open>r\<close> exactly when the thresholded state of \<open>r\<close> (probability at least the
  threshold) differs from the state of the last event emitted for \<open>rows\<close>, and changes
  nothing before it.  Every event is the one built from its sample: the raw
  probability, the confidence \<open>|p - 0.5| * 2\<close>, the timestamp, and \<open>occupied\<close> or
  \<open>unoccupied\<close> by the threshold.  For the probabilities 0.9, 0.9, 0.2, 0.2, 0.8 at
  the positions 0 to 4 and the threshold 0.7 the events are at 0 (occupied),
  2 (unoccupied) and 4 (occupied).
\<close>

theorem detect_occupancy_change_events:
  "detect_occupancy_change [] th = []
   \<and> detect_occupancy_change (r0 # rs) th \<noteq> []
   \<and> hd (detect_occupancy_change (r0 # rs) th) = make_event th r0
   \<and> (rows \<noteq> [] \<longrightarrow>
        detect_occupancy_change (rows @ [r]) th =
          detect_occupancy_change rows th @
            (if (th \<le> fst r) \<noteq> (event (last (detect_occupancy_change rows th)) = ''occupied'')
             then [make_event th r] else []))
   \<and> set (detect_occupancy_change rows th) \<subseteq> make_event th ` set rows
   \<and> probability (make_event th (p, t)) = p
   \<and> confidence (make_event th (p, t)) = \<bar>p - 0.5\<bar> * 2
   \<and> timestamp (make_event th (p, t)) = t
   \<and> event (make_event th (p, t)) = (if th \<le> p then ''occupied'' else ''unoccupied'')
   \<and> map (\<lambda>e. (timestamp e, event e))
        (detect_occupancy_change (zip [0.9, 0.9, 0.2, 0.2, 0.8] [0::nat, 1, 2, 3, 4]) 0.7)
      = [(0, ''occupied''), (2, ''unoccupied''), (4, ''occupied'')]"
proof -
  have a: "detect_occupancy_change [] th = ([] :: 'a occupancy_event list)"
    by (simp add: detect_occupancy_change_def)
  have b: "set (detect_occupancy_change rows th) \<subseteq> make_event th ` set rows"
    by (simp add: detect_occupancy_change_def occupancy_loop_subset)
  have c: "probability (make_event th (p, t)) = p"
    "confidence (make_event th (p, t)) = \<bar>p - 0.5\<bar> * 2"
    "timestamp (make_event th (p, t)) = t"
    "event (make_event th (p, t)) = (if th \<le> p then ''occupied'' else ''unoccupied'')"
    by (simp_all add: make_event_def Let_def)
  have d: "map (\<lambda>e. (timestamp e, event e))
        (detect_occupancy_change (zip [0.9, 0.9, 0.2, 0.2, 0.8] [0::nat, 1, 2, 3, 4]) 0.7)
      = [(0, ''occupied''), (2, ''unoccupied''), (4, ''occupied'')]"
    by (simp add: detect_occupancy_change_def Let_def make_event_def)
  from a b c d detect_first[of r0 rs th] detect_snoc[of rows r th] show ?thesis
    by blast
qed

theorem detect_occupancy_change_events_witness:
  "[(0.9, 0::nat)] \<noteq> []
   \<and> detect_occupancy_change ([(0.9, 0::nat)] @ [(0.2, 1)]) 0.7
       = detect_occupancy_change [(0.9, 0)] 0.7 @
           (if (0.7 \<le> fst (0.2 :: real, 1 :: nat))
                 \<noteq> (event (last (detect_occupancy_change [(0.9, 0::nat)] 0.7)) = ''occupied'')
            then [make_event 0.7 (0.2, 1)] else [])"
proof -
  have h: "[(0.9 :: real, 0::nat)] \<noteq> []"
    by simp
  from detect_occupancy_change_events
         [of "0.7" "(0.9, 0::nat)" "[]" "[(0.9, 0)]" "(0.2, 1)" 0 0] h
  show ?thesis by blast
qed


section \<open>Configuration lookup\<close>

text \<open>
  C5.  \<open>get_config\<close> returns the preset of the specification's table for each of the
  five family names, and the empty dictionary for every other key.
\<close>

theorem get_config_presets:
  "get_config ''energy_forecasting'' =
     [(''sequence_length'', IntVal 24), (''prediction_horizon'', IntVal 12),
      (''hidden_units'', IntList [128, 64, 32]), (''dropout_rate'', FloatVal 0.2),
      (''learning_rate'', FloatVal 0.001), (''batch_size'', IntVal 32),
      (''epochs'', IntVal 100), (''early_stopping_patience'', IntVal 10)]
   \<and> get_config ''anomaly_detection'' =
     [(''contamination'', FloatVal 0.1), (''n_estimators'', IntVal 100),
      (''max_samples'', IntVal 256), (''threshold'', FloatVal 0.8),
      (''window_size'', IntVal 50)]
   \<and> get_config ''behavior_prediction'' =
     [(''sequence_length'', IntVal 48), (''hidden_units'', IntList [256, 128, 64]),
      (''dropout_rate'', FloatVal 0.3), (''learning_rate'', FloatVal 0.0005),
      (''batch_size'', IntVal 64), (''epochs'', IntVal 150)]
   \<and> get_config ''occupancy_detection'' =
     [(''n_estimators'', IntVal 200), (''max_depth'', IntVal 10),
      (''min_samples_split'', IntVal 5), (''min_samples_leaf'', IntVal 2),
      (''features'', StrList [''motion'', ''temperature'', ''humidity'', ''light'', ''sound''])]
   \<and> get_config ''predictive_maintenance'' =
     [(''sequence_length'', IntVal 100), (''threshold'', FloatVal 0.7),
      (''warning_threshold'', FloatVal 0.5),
      (''features'', StrList [''usage_hours'', ''error_count'', ''temperature'', ''vibration''])]
   \<and> (k \<notin> {''energy_forecasting'', ''anomaly_detection'', ''behavior_prediction'',
             ''occupancy_detection'', ''predictive_maintenance''} \<longrightarrow> get_config k = [])"
  by (simp add: get_config_def ENERGY_FORECASTING_def ANOMALY_DETECTION_def
      BEHAVIOR_PREDICTION_def OCCUPANCY_DETECTION_def PREDICTIVE_MAINTENANCE_def)

theorem get_config_presets_witness:
  "''sentiment_analysis'' \<notin> {''energy_forecasting'', ''anomaly_detection'',
       ''behavior_prediction'', ''occupancy_detection'', ''predictive_maintenance''}
   \<and> get_config ''sentiment_analysis'' = []"
proof -
  have h: "''sentiment_analysis'' \<notin> {''energy_forecasting'', ''anomaly_detection'',
       ''behavior_prediction'', ''occupancy_detection'', ''predictive_maintenance''}"
    by simp
  from get_config_presets [of "''sentiment_analysis''"] h show ?thesis by blast
qed


section \<open>Version registration\<close>











section \<open>Active deployments\<close>

lemma filter_upt_last:
  assumes "filter Q [0..<n] = ys @ [a]"
  shows "a < n \<and> Q a \<and> (\<forall>k<n. Q k \<longrightarrow> k \<le> a) \<and> ys = filter Q [0..<a]"
proof -
  have s: "sorted_wrt (<) (ys @ [a])" 
    using assms sorted_wrt_filter[of "(<)" "[0..<n]" Q] by (simp del: sorted_wrt_append)
  have m: "a \<in> set (filter Q [0..<n])" using assms by simp
  hence a: "a < n" "Q a" by auto
  have le: "\<forall>k<n. Q k \<longrightarrow> k \<le> a"
  proof (intro allI impI)
    fix k assume "k < n" "Q k"
    hence "k \<in> set (ys @ [a])" using assms[symmetric] by simp
    thus "k \<le> a" using s by (auto simp: sorted_wrt_append)
  qed
  have "filter Q [0..<n] = filter Q [0..<a] @ filter Q [a..<n]"
    using a(1) by (metis filter_append le_add_diff_inverse less_imp_le_nat upt_add_eq_append zero_le)
  moreover have "filter Q [a..<n] = [a]"
  proof -
    have "[a..<n] = a # [Suc a..<n]" using a(1) by (simp add: upt_conv_Cons)
    moreover have "filter Q [Suc a..<n] = []" using le by (auto simp: filter_empty_conv)
    ultimately show ?thesis using a(2) by simp
  qed
  ultimately have "ys @ [a] = filter Q [0..<a] @ [a]" using assms by simp
  hence "ys = filter Q [0..<a]" by simp
  with a le show ?thesis by blast
qed

lemma active_index_Some:
  assumes "active_index ds m = Some a"
  shows "a < length ds \<and> model_name (ds ! a) = m \<and> status (ds ! a) = ''active''
         \<and> (\<forall>k<length ds. model_name (ds ! k) = m \<and> status (ds ! k) = ''active'' \<longrightarrow> k \<le> a)"
proof -
  let ?Q = "\<lambda>i. model_name (ds ! i) = m \<and> status (ds ! i) = ''active''"
  from assms obtain r where "rev (filter ?Q [0..<length ds]) = a # r"
    by (auto simp: active_index_def rev_filter[symmetric] split: list.splits)
  hence "filter ?Q [0..<length ds] = rev r @ [a]" by (simp add: rev_swap)
  from filter_upt_last[OF this] show ?thesis by blast
qed

lemma active_index_None:
  assumes "active_index ds m = None" "k < length ds" "model_name (ds ! k) = m"
  shows "status (ds ! k) \<noteq> ''active''"
proof -
  let ?Q = "\<lambda>i. model_name (ds ! i) = m \<and> status (ds ! i) = ''active''"
  from assms(1) have "filter ?Q [0..<length ds] = []"
    by (auto simp: active_index_def rev_filter[symmetric] split: list.splits)
  with assms(2,3) show ?thesis by (auto simp: filter_empty_conv)
qed

lemma last_two_indices:
  assumes "idx = filter Q [0..<n]" "2 \<le> length idx"
  shows "idx ! (length idx - 2) < idx ! (length idx - 1) \<and> idx ! (length idx - 1) < n
         \<and> Q (idx ! (length idx - 1)) \<and> Q (idx ! (length idx - 2))
         \<and> (\<forall>k<n. Q k \<longrightarrow> k = idx ! (length idx - 1) \<or> k \<le> idx ! (length idx - 2))"
proof -
  from assms(2) obtain ys c where i1: "idx = ys @ [c]"
    by (cases idx rule: rev_cases) auto
  with assms(2) obtain zs p where i2: "ys = zs @ [p]"
    by (cases ys rule: rev_cases) auto
  have c: "idx ! (length idx - 1) = c" by (simp add: i1)
  have p: "idx ! (length idx - 2) = p" by (simp add: i1 i2 nth_append)
  from filter_upt_last[of Q n ys c] assms(1) i1
  have c1: "c < n" "Q c" "\<forall>k<n. Q k \<longrightarrow> k \<le> c" "ys = filter Q [0..<c]" by auto
  from filter_upt_last[of Q c zs p] c1(4) i2
  have p1: "p < c" "Q p" "\<forall>k<c. Q k \<longrightarrow> k \<le> p" by auto
  have "\<forall>k<n. Q k \<longrightarrow> k = c \<or> k \<le> p"
    using c1(3) p1(3) by (metis le_neq_implies_less)
  with c p c1 p1 show ?thesis by simp
qed

lemma nth_update_cases:
  "k < length xs \<Longrightarrow> xs[i := x] ! k = (if i = k then x else xs ! k)"
  by (cases "i = k") auto

lemma deactivate_facts:
  "length (deactivate ds name) = length ds"
  "k < length ds \<Longrightarrow> model_name (deactivate ds name ! k) = model_name (ds ! k)"
  "k < length ds \<Longrightarrow> environment (deactivate ds name ! k) = environment (ds ! k)"
  "k < length ds \<Longrightarrow> status (deactivate ds name ! k) = ''active'' \<Longrightarrow> status (ds ! k) = ''active''"
  by (auto simp: deactivate_def nth_update_cases split: option.splits if_splits)

lemma deactivate_none_active:
  assumes "inv_list env ds" "k < length ds" "model_name (ds ! k) = name"
  shows "status (deactivate ds name ! k) \<noteq> ''active''"
proof (cases "active_index ds name")
  case None
  from active_index_None[OF None assms(2,3)] show ?thesis
    by (simp add: deactivate_def None)
next
  case (Some a)
  note A = active_index_Some[OF Some]
  show ?thesis
  proof (cases "k = a")
    case True
    with A show ?thesis by (simp add: deactivate_def Some)
  next
    case False
    have "status (ds ! k) \<noteq> ''active''"
    proof
      assume act: "status (ds ! k) = ''active''"
      with A assms(2,3) have "k \<le> a" by blast
      with False have "k < a" by simp
      moreover from assms(1) have "\<forall>i j. i < j \<and> j < length ds \<and> model_name (ds ! i) = model_name (ds ! j)
            \<and> status (ds ! j) = ''active'' \<longrightarrow> status (ds ! i) \<noteq> ''active''"
        by (simp add: inv_list_def)
      ultimately have "status (ds ! k) \<noteq> ''active''" using A assms(3) by metis
      with act show False by simp
    qed
    with False assms(2) show ?thesis by (simp add: deactivate_def Some)
  qed
qed

lemma inv_list_deploy:
  assumes "inv_list env ds"
  shows "inv_list env (deactivate ds name @ [ModelDeployment name ver env ep now])"
proof -
  let ?d1 = "deactivate ds name"
  let ?new = "ModelDeployment name ver env ep now"
  let ?l = "?d1 @ [?new]"
  have n: "model_name ?new = name" "status ?new = ''active''" "environment ?new = env"
    by (simp_all add: ModelDeployment_def)
  have len: "length ?l = Suc (length ds)" by (simp add: deactivate_facts)
  from assms have I0: "\<And>i. i < length ds \<Longrightarrow> environment (ds ! i) = env"
    and I1: "\<And>i j. i < j \<Longrightarrow> j < length ds \<Longrightarrow> model_name (ds ! i) = model_name (ds ! j)
            \<Longrightarrow> status (ds ! j) = ''active'' \<Longrightarrow> status (ds ! i) \<noteq> ''active''"
    and I2: "\<And>i j k. i < j \<Longrightarrow> j < k \<Longrightarrow> k < length ds \<Longrightarrow> model_name (ds ! i) = model_name (ds ! k)
            \<Longrightarrow> model_name (ds ! j) = model_name (ds ! k) \<Longrightarrow> status (ds ! i) \<noteq> ''active''"
    unfolding inv_list_def by blast+
  have old: "\<And>k. k < length ds \<Longrightarrow> ?l ! k = ?d1 ! k"
    by (simp add: nth_append deactivate_facts)
  have new: "?l ! length ds = ?new"
    by (simp add: nth_append deactivate_facts)
  have E: "\<forall>i < length ?l. environment (?l ! i) = env"
  proof (intro allI impI)
    fix i assume "i < length ?l"
    hence "i < length ds \<or> i = length ds" using len by auto
    thus "environment (?l ! i) = env"
      using old new n I0 deactivate_facts(3) by metis
  qed
  have A: "\<forall>i j. i < j \<and> j < length ?l \<and> model_name (?l ! i) = model_name (?l ! j)
            \<and> status (?l ! j) = ''active'' \<longrightarrow> status (?l ! i) \<noteq> ''active''"
  proof (intro allI impI, elim conjE)
    fix i j assume h: "i < j" "j < length ?l" "model_name (?l ! i) = model_name (?l ! j)"
       "status (?l ! j) = ''active''"
    from h(2) len have "j < length ds \<or> j = length ds" by auto
    thus "status (?l ! i) \<noteq> ''active''"
    proof
      assume j: "j < length ds"
      with h(1) have i: "i < length ds" by simp
      from h(3) have "model_name (ds ! i) = model_name (ds ! j)"
        using old i j deactivate_facts(2) by metis
      moreover from h(4) have "status (ds ! j) = ''active''"
        using old j deactivate_facts(4) by metis
      ultimately have "status (ds ! i) \<noteq> ''active''" using I1 h(1) j by blast
      thus ?thesis using old i deactivate_facts(4) by metis
    next
      assume j: "j = length ds"
      with h(1) have i: "i < length ds" by simp
      from h(3) j new n have "model_name (?l ! i) = name" by simp
      hence "model_name (ds ! i) = name" using old i deactivate_facts(2) by metis
      from deactivate_none_active[OF assms i this] show ?thesis using old i by metis
    qed
  qed
  have B: "\<forall>i j k. i < j \<and> j < k \<and> k < length ?l \<and> model_name (?l ! i) = model_name (?l ! k)
            \<and> model_name (?l ! j) = model_name (?l ! k) \<longrightarrow> status (?l ! i) \<noteq> ''active''"
  proof (intro allI impI, elim conjE)
    fix i j k assume h: "i < j" "j < k" "k < length ?l" "model_name (?l ! i) = model_name (?l ! k)"
       "model_name (?l ! j) = model_name (?l ! k)"
    from h(3) len have "k < length ds \<or> k = length ds" by auto
    thus "status (?l ! i) \<noteq> ''active''"
    proof
      assume k: "k < length ds"
      with h(1,2) have i: "i < length ds" and j: "j < length ds" by simp_all
      from h(4) have "model_name (ds ! i) = model_name (ds ! k)"
        using old i k deactivate_facts(2) by metis
      moreover from h(5) have "model_name (ds ! j) = model_name (ds ! k)"
        using old j k deactivate_facts(2) by metis
      ultimately have "status (ds ! i) \<noteq> ''active''" using I2 h(1,2) k by blast
      thus ?thesis using old i deactivate_facts(4) by metis
    next
      assume k: "k = length ds"
      with h(1,2) have i: "i < length ds" by simp
      from h(4) k new n have "model_name (?l ! i) = name" by simp
      hence "model_name (ds ! i) = name" using old i deactivate_facts(2) by metis
      from deactivate_none_active[OF assms i this] show ?thesis using old i by metis
    qed
  qed
  from E A B show ?thesis unfolding inv_list_def by blast
qed

lemma inv_list_rollback:
  assumes inv: "inv_list env ds"
    and idx: "idx = filter (\<lambda>i. model_name (ds ! i) = name) [0..<length ds]"
    and two: "2 \<le> length idx"
    and c: "c = idx ! (length idx - 1)" and p: "p = idx ! (length idx - 2)"
    and ds1: "ds1 = ds[c := (ds ! c)\<lparr>status := ''rolled_back''\<rparr>]"
    and ds2: "ds2 = ds1[p := (ds1 ! p)\<lparr>status := ''active''\<rparr>]"
  shows "inv_list env ds2"
proof -
  from last_two_indices[OF idx two] c p
  have pc: "p < c" and cn: "c < length ds"
    and nc: "model_name (ds ! c) = name" and np: "model_name (ds ! p) = name"
    and top: "\<And>k. k < length ds \<Longrightarrow> model_name (ds ! k) = name \<Longrightarrow> k = c \<or> k \<le> p"
    by blast+
  from inv have I0: "\<And>i. i < length ds \<Longrightarrow> environment (ds ! i) = env"
    and I1: "\<And>i j. i < j \<Longrightarrow> j < length ds \<Longrightarrow> model_name (ds ! i) = model_name (ds ! j)
            \<Longrightarrow> status (ds ! j) = ''active'' \<Longrightarrow> status (ds ! i) \<noteq> ''active''"
    and I2: "\<And>i j k. i < j \<Longrightarrow> j < k \<Longrightarrow> k < length ds \<Longrightarrow> model_name (ds ! i) = model_name (ds ! k)
            \<Longrightarrow> model_name (ds ! j) = model_name (ds ! k) \<Longrightarrow> status (ds ! i) \<noteq> ''active''"
    unfolding inv_list_def by blast+
  have len: "length ds2 = length ds" by (simp add: ds1 ds2)
  have nm: "\<And>k. k < length ds \<Longrightarrow> model_name (ds2 ! k) = model_name (ds ! k)"
    by (simp add: ds1 ds2 nth_update_cases)
  have en: "\<And>k. k < length ds \<Longrightarrow> environment (ds2 ! k) = environment (ds ! k)"
    by (simp add: ds1 ds2 nth_update_cases)
  have st: "\<And>k. k < length ds \<Longrightarrow> status (ds2 ! k) =
       (if k = p then ''active'' else if k = c then ''rolled_back'' else status (ds ! k))"
    by (simp add: ds1 ds2 nth_update_cases)
  have E: "\<forall>i < length ds2. environment (ds2 ! i) = env"
    using len en I0 by simp
  have A: "\<forall>i j. i < j \<and> j < length ds2 \<and> model_name (ds2 ! i) = model_name (ds2 ! j)
            \<and> status (ds2 ! j) = ''active'' \<longrightarrow> status (ds2 ! i) \<noteq> ''active''"
  proof (intro allI impI, elim conjE)
    fix i j assume h: "i < j" "j < length ds2" "model_name (ds2 ! i) = model_name (ds2 ! j)"
       "status (ds2 ! j) = ''active''"
    from h(1,2) len have j: "j < length ds" and i: "i < length ds" by simp_all
    from h(3) nm i j have same: "model_name (ds ! i) = model_name (ds ! j)" by simp
    show "status (ds2 ! i) \<noteq> ''active''"
    proof (cases "model_name (ds ! j) = name")
      case False
      with nc np have jn: "j \<noteq> c" "j \<noteq> p" by auto
      from False same nc np have inn: "i \<noteq> c" "i \<noteq> p" by auto
      from h(4) st[OF j] jn have "status (ds ! j) = ''active''" by simp
      with I1[OF h(1) j same] have "status (ds ! i) \<noteq> ''active''" by simp
      with st[OF i] inn show ?thesis by simp
    next
      case True
      from h(4) st[OF j] have jc: "j \<noteq> c \<or> j = p" by (auto split: if_splits)
      with pc have jc': "j \<noteq> c" by auto
      with top[OF j True] have jp: "j \<le> p" by simp
      show ?thesis
      proof (cases "j = p")
        case True
        with h(1) pc have ip: "i < p" "i \<noteq> p" "i \<noteq> c" by simp_all
        from same \<open>model_name (ds ! j) = name\<close> nc np
        have "model_name (ds ! i) = model_name (ds ! c)" "model_name (ds ! p) = model_name (ds ! c)"
          by simp_all
        from I2[OF ip(1) pc cn this] st[OF i] ip show ?thesis by simp
      next
        case False
        with jp have jlt: "j < p" by simp
        from True nc np
        have "model_name (ds ! j) = model_name (ds ! c)" "model_name (ds ! p) = model_name (ds ! c)"
          by simp_all
        from I2[OF jlt pc cn this] have "status (ds ! j) \<noteq> ''active''" .
        moreover from h(4) st[OF j] False jc' have "status (ds ! j) = ''active''" by simp
        ultimately show ?thesis by simp
      qed
    qed
  qed
  have B: "\<forall>i j k. i < j \<and> j < k \<and> k < length ds2 \<and> model_name (ds2 ! i) = model_name (ds2 ! k)
            \<and> model_name (ds2 ! j) = model_name (ds2 ! k) \<longrightarrow> status (ds2 ! i) \<noteq> ''active''"
  proof (intro allI impI, elim conjE)
    fix i j k assume h: "i < j" "j < k" "k < length ds2" "model_name (ds2 ! i) = model_name (ds2 ! k)"
       "model_name (ds2 ! j) = model_name (ds2 ! k)"
    from h(1,2,3) len have k: "k < length ds" and j: "j < length ds" and i: "i < length ds"
      by simp_all
    from h(4,5) nm i j k have same: "model_name (ds ! i) = model_name (ds ! k)"
      "model_name (ds ! j) = model_name (ds ! k)" by simp_all
    from I2[OF h(1,2) k same] have old: "status (ds ! i) \<noteq> ''active''" .
    have "i \<noteq> p"
    proof
      assume ip: "i = p"
      with same np have kn: "model_name (ds ! k) = name" "model_name (ds ! j) = name" by simp_all
      from top[OF j kn(2)] h(1) ip have "j = c" by simp
      with top[OF k kn(1)] h(2) pc show False by simp
    qed
    with st[OF i] old show "status (ds2 ! i) \<noteq> ''active''" by simp
  qed
  from E A B show ?thesis unfolding inv_list_def by blast
qed

lemma inv_list_cong:
  assumes inv: "inv_list env ds" and len: "length ds' = length ds"
    and same: "\<And>k. k < length ds \<Longrightarrow> model_name (ds' ! k) = model_name (ds ! k)
                 \<and> status (ds' ! k) = status (ds ! k)
                 \<and> environment (ds' ! k) = environment (ds ! k)"
  shows "inv_list env ds'"
proof -
  from inv have I0: "\<And>i. i < length ds \<Longrightarrow> environment (ds ! i) = env"
    and I1: "\<And>i j. i < j \<Longrightarrow> j < length ds \<Longrightarrow> model_name (ds ! i) = model_name (ds ! j)
            \<Longrightarrow> status (ds ! j) = ''active'' \<Longrightarrow> status (ds ! i) \<noteq> ''active''"
    and I2: "\<And>i j k. i < j \<Longrightarrow> j < k \<Longrightarrow> k < length ds \<Longrightarrow> model_name (ds ! i) = model_name (ds ! k)
            \<Longrightarrow> model_name (ds ! j) = model_name (ds ! k) \<Longrightarrow> status (ds ! i) \<noteq> ''active''"
    unfolding inv_list_def by blast+
  have E: "\<forall>i < length ds'. environment (ds' ! i) = env"
    using len same I0 by simp
  have A: "\<forall>i j. i < j \<and> j < length ds' \<and> model_name (ds' ! i) = model_name (ds' ! j)
            \<and> status (ds' ! j) = ''active'' \<longrightarrow> status (ds' ! i) \<noteq> ''active''"
  proof (intro allI impI, elim conjE)
    fix i j assume h: "i < j" "j < length ds'" "model_name (ds' ! i) = model_name (ds' ! j)"
       "status (ds' ! j) = ''active''"
    from h(1,2) len have j: "j < length ds" and i: "i < length ds" by simp_all
    from h(3,4) same[OF i] same[OF j]
    have "model_name (ds ! i) = model_name (ds ! j)" "status (ds ! j) = ''active''" by simp_all
    from I1[OF h(1) j this] same[OF i] show "status (ds' ! i) \<noteq> ''active''" by simp
  qed
  have B: "\<forall>i j k. i < j \<and> j < k \<and> k < length ds' \<and> model_name (ds' ! i) = model_name (ds' ! k)
            \<and> model_name (ds' ! j) = model_name (ds' ! k) \<longrightarrow> status (ds' ! i) \<noteq> ''active''"
  proof (intro allI impI, elim conjE)
    fix i j k assume h: "i < j" "j < k" "k < length ds'" "model_name (ds' ! i) = model_name (ds' ! k)"
       "model_name (ds' ! j) = model_name (ds' ! k)"
    from h(1,2,3) len have k: "k < length ds" and j: "j < length ds" and i: "i < length ds"
      by simp_all
    from h(4,5) same[OF i] same[OF j] same[OF k]
    have "model_name (ds ! i) = model_name (ds ! k)" "model_name (ds ! j) = model_name (ds ! k)"
      by simp_all
    from I2[OF h(1,2) k this] same[OF i] show "status (ds' ! i) \<noteq> ''active''" by simp
  qed
  from E A B show ?thesis unfolding inv_list_def by blast
qed

lemma inv_list_metrics:
  assumes "inv_list env ds"
  shows "inv_list env (ds[i := (ds ! i)\<lparr>metrics := m\<rparr>])"
  by (rule inv_list_cong[OF assms]) (simp_all add: nth_update_cases)

lemma inv_list_Nil: "inv_list env []"
  by (simp add: inv_list_def)

lemma deploy_model_result:
  "fst (deploy_model s name ver env ep now) = ModelDeployment name ver env ep now"
  "snd (deploy_model s name ver env ep now)
     = s(env \<mapsto> deactivate (case s env of None \<Rightarrow> [] | Some l \<Rightarrow> l) name
                  @ [ModelDeployment name ver env ep now])"
  by (auto simp: deploy_model_def Let_def deactivate_def get_active_deployment_def
      split: option.splits)

lemma inv_deploy:
  assumes "inv s"
  shows "inv (snd (deploy_model s name ver env ep now))"
proof -
  have "inv_list env (case s env of None \<Rightarrow> [] | Some l \<Rightarrow> l)"
    using assms by (auto simp: inv_def inv_list_Nil split: option.splits)
  from inv_list_deploy[OF this] assms show ?thesis
    by (auto simp: deploy_model_result inv_def)
qed

lemma inv_rollback:
  assumes "inv s"
  shows "inv (snd (rollback_deployment s env name))"
proof (cases "s env")
  case None
  with assms show ?thesis by (simp add: rollback_deployment_def)
next
  case (Some ds)
  let ?idx = "filter (\<lambda>i. model_name (ds ! i) = name) [0..<length ds]"
  show ?thesis
  proof (cases "length ?idx < 2")
    case True
    with assms Some show ?thesis by (simp add: rollback_deployment_def Let_def)
  next
    case False
    hence two: "2 \<le> length ?idx" by simp
    let ?c = "?idx ! (length ?idx - 1)"
    let ?p = "?idx ! (length ?idx - 2)"
    let ?ds1 = "ds[?c := (ds ! ?c)\<lparr>status := ''rolled_back''\<rparr>]"
    let ?ds2 = "?ds1[?p := (?ds1 ! ?p)\<lparr>status := ''active''\<rparr>]"
    from assms Some have "inv_list env ds" by (simp add: inv_def)
    from inv_list_rollback[OF this refl two refl refl refl refl]
    have "inv_list env ?ds2" .
    moreover have "snd (rollback_deployment s env name) = s(env \<mapsto> ?ds2)"
      using Some False by (simp add: rollback_deployment_def Let_def)
    ultimately show ?thesis using assms by (auto simp: inv_def)
  qed
qed

lemma inv_metrics:
  assumes "inv s"
  shows "inv (update_metrics s env name ms)"
proof (cases "get_active_deployment s env name")
  case None
  with assms show ?thesis by (simp add: update_metrics_def)
next
  case (Some i)
  then obtain ds where ds: "s env = Some ds"
    by (auto simp: get_active_deployment_def split: option.splits)
  with assms have "inv_list env ds" by (simp add: inv_def)
  from inv_list_metrics[OF this] assms ds Some show ?thesis
    by (auto simp: update_metrics_def Let_def inv_def)
qed

lemma reachable_inv: "reachable s \<Longrightarrow> inv s"
proof (induction rule: reachable.induct)
  case init
  show ?case by (simp add: inv_def)
next
  case (deploy s name ver env ep now)
  then show ?case by (simp add: inv_deploy)
next
  case (rollback s env name)
  then show ?case by (simp add: inv_rollback)
next
  case (metrics s env name new_metrics)
  then show ?case by (simp add: inv_metrics)
qed

lemma inv_unique:
  assumes "inv s" "s e1 = Some ds1" "s e2 = Some ds2" "i < length ds1" "j < length ds2"
    "environment (ds1 ! i) = environment (ds2 ! j)" "model_name (ds1 ! i) = model_name (ds2 ! j)"
    "status (ds1 ! i) = ''active''" "status (ds2 ! j) = ''active''"
  shows "e1 = e2 \<and> i = j"
proof -
  from assms(1,2,3) have l1: "inv_list e1 ds1" and l2: "inv_list e2 ds2"
    by (simp_all add: inv_def)
  from l1 assms(4) have "environment (ds1 ! i) = e1" by (simp add: inv_list_def)
  moreover from l2 assms(5) have "environment (ds2 ! j) = e2" by (simp add: inv_list_def)
  ultimately have e: "e1 = e2" using assms(6) by simp
  with assms(2,3) have d: "ds1 = ds2" by simp
  from l2 have I1: "\<And>i j. i < j \<Longrightarrow> j < length ds2 \<Longrightarrow> model_name (ds2 ! i) = model_name (ds2 ! j)
            \<Longrightarrow> status (ds2 ! j) = ''active'' \<Longrightarrow> status (ds2 ! i) \<noteq> ''active''"
    unfolding inv_list_def by blast
  have "\<not> i < j" using I1[of i j] assms d by auto
  moreover have "\<not> j < i" using I1[of j i] assms d by auto
  ultimately show ?thesis using e by simp
qed

lemma deploy_appends_active:
  assumes "inv s"
  shows "\<exists>ds'. snd (deploy_model s name ver env ep now) env
                 = Some (ds' @ [fst (deploy_model s name ver env ep now)])
           \<and> (\<forall>k < length ds'. model_name (ds' ! k) = name \<longrightarrow> status (ds' ! k) \<noteq> ''active'')"
proof -
  let ?ds = "case s env of None \<Rightarrow> [] | Some l \<Rightarrow> l"
  have il: "inv_list env ?ds"
    using assms by (auto simp: inv_def inv_list_Nil split: option.splits)
  have "\<forall>k < length (deactivate ?ds name).
          model_name (deactivate ?ds name ! k) = name \<longrightarrow> status (deactivate ?ds name ! k) \<noteq> ''active''"
    using deactivate_none_active[OF il] deactivate_facts(1,2) by metis
  thus ?thesis by (simp add: deploy_model_result)
qed

text \<open>
  C3.  In every registry reachable from the empty one by \<open>deploy_model\<close>,
  \<open>rollback_deployment\<close> and \<open>update_metrics\<close>, two active records with the same
  environment and the same model name are the same record of the same list.  After
  \<open>deploy_model\<close> the list of the environment ends with the new record, which is
  active, and no other record of that model in the list is.
\<close>

theorem one_active_deployment:
  assumes "reachable s"
  shows "(s e1 = Some ds1 \<and> s e2 = Some ds2 \<and> i < length ds1 \<and> j < length ds2
          \<and> environment (ds1 ! i) = environment (ds2 ! j)
          \<and> model_name (ds1 ! i) = model_name (ds2 ! j)
          \<and> status (ds1 ! i) = ''active'' \<and> status (ds2 ! j) = ''active''
          \<longrightarrow> e1 = e2 \<and> i = j)
       \<and> (\<exists>ds'. snd (deploy_model s name ver env ep now) env
                   = Some (ds' @ [fst (deploy_model s name ver env ep now)])
             \<and> (\<forall>k < length ds'. model_name (ds' ! k) = name \<longrightarrow> status (ds' ! k) \<noteq> ''active''))
       \<and> status (fst (deploy_model s name ver env ep now)) = ''active''
       \<and> model_name (fst (deploy_model s name ver env ep now)) = name
       \<and> environment (fst (deploy_model s name ver env ep now)) = env"
proof -
  note i = reachable_inv[OF assms]
  have a: "s e1 = Some ds1 \<and> s e2 = Some ds2 \<and> i < length ds1 \<and> j < length ds2
          \<and> environment (ds1 ! i) = environment (ds2 ! j)
          \<and> model_name (ds1 ! i) = model_name (ds2 ! j)
          \<and> status (ds1 ! i) = ''active'' \<and> status (ds2 ! j) = ''active''
          \<longrightarrow> e1 = e2 \<and> i = j"
    using inv_unique[OF i, of e1 ds1 e2 ds2 i j] by blast
  have c: "status (fst (deploy_model s name ver env ep now)) = ''active''"
       "model_name (fst (deploy_model s name ver env ep now)) = name"
       "environment (fst (deploy_model s name ver env ep now)) = env"
    by (simp_all add: deploy_model_result ModelDeployment_def)
  from a deploy_appends_active[OF i, of name ver env ep now] c show ?thesis by blast
qed

lemma two_deployments:
  "snd (deploy_model (snd (deploy_model Map.empty ''m'' ''1'' ''prod'' ''ep'' ''t0''))
          ''m'' ''2'' ''prod'' ''ep'' ''t1'') ''prod''
   = Some [\<lparr>model_name = ''m'', deployed_version = ''1'', environment = ''prod'',
            endpoint = ''ep'', deployed_at = ''t0'', status = ''inactive'',
            metrics = [(''requests'', 0), (''errors'', 0), (''avg_latency'', 0)]\<rparr>,
           \<lparr>model_name = ''m'', deployed_version = ''2'', environment = ''prod'',
            endpoint = ''ep'', deployed_at = ''t1'', status = ''active'',
            metrics = [(''requests'', 0), (''errors'', 0), (''avg_latency'', 0)]\<rparr>]"
  by (simp add: deploy_model_def Let_def get_active_deployment_def active_index_def
      ModelDeployment_def)

theorem one_active_deployment_witness:
  "reachable (snd (deploy_model (snd (deploy_model Map.empty ''m'' ''1'' ''prod'' ''ep'' ''t0''))
                     ''m'' ''2'' ''prod'' ''ep'' ''t1''))
   \<and> map status (the (snd (deploy_model (snd (deploy_model Map.empty ''m'' ''1'' ''prod'' ''ep'' ''t0''))
                     ''m'' ''2'' ''prod'' ''ep'' ''t1'') ''prod''))
       = [''inactive'', ''active'']
   \<and> status (fst (deploy_model
                    (snd (deploy_model (snd (deploy_model Map.empty ''m'' ''1'' ''prod'' ''ep'' ''t0''))
                            ''m'' ''2'' ''prod'' ''ep'' ''t1''))
                    ''m'' ''3'' ''prod'' ''ep'' ''t2'')) = ''active''"
proof -
  let ?S = "snd (deploy_model (snd (deploy_model Map.empty ''m'' ''1'' ''prod'' ''ep'' ''t0''))
                   ''m'' ''2'' ''prod'' ''ep'' ''t1'')"
  let ?D1 = "\<lparr>model_name = ''m'', deployed_version = ''1'', environment = ''prod'',
              endpoint = ''ep'', deployed_at = ''t0'', status = ''inactive'',
              metrics = [(''requests'', 0), (''errors'', 0), (''avg_latency'', 0)]\<rparr>"
  let ?D2 = "\<lparr>model_name = ''m'', deployed_version = ''2'', environment = ''prod'',
              endpoint = ''ep'', deployed_at = ''t1'', status = ''active'',
              metrics = [(''requests'', 0), (''errors'', 0), (''avg_latency'', 0)]\<rparr>"
  have r: "reachable ?S"
    by (intro reachable.intros)
  have st: "?S ''prod'' = Some [?D1, ?D2]"
    by (rule two_deployments)
  have prem: "?S ''prod'' = Some [?D1, ?D2] \<and> ?S ''prod'' = Some [?D1, ?D2]
          \<and> (1::nat) < length [?D1, ?D2] \<and> (1::nat) < length [?D1, ?D2]
          \<and> environment ([?D1, ?D2] ! 1) = environment ([?D1, ?D2] ! 1)
          \<and> model_name ([?D1, ?D2] ! 1) = model_name ([?D1, ?D2] ! 1)
          \<and> status ([?D1, ?D2] ! 1) = ''active'' \<and> status ([?D1, ?D2] ! 1) = ''active''"
    using st by simp
  note t = one_active_deployment
             [OF r, where ?e1.0 = "''prod''" and ?e2.0 = "''prod''" and ?ds1.0 = "[?D1, ?D2]"
                and ?ds2.0 = "[?D1, ?D2]" and i = 1 and j = 1 and name = "''m''"
                and ver = "''3''" and env = "''prod''" and ep = "''ep''" and now = "''t2''"]
  from t prem have "status (fst (deploy_model ?S ''m'' ''3'' ''prod'' ''ep'' ''t2'')) = ''active''"
    by blast
  with r st show ?thesis by simp
qed


section \<open>Forecaster errors and constant series\<close>

lemma normalize_facts:
  "window_size (fst (normalize np_mean np_std st xs)) = window_size st"
  "forecast_horizon (fst (normalize np_mean np_std st xs)) = forecast_horizon st"
  "length (snd (normalize np_mean np_std st xs)) = length xs"
  "weights (fst (normalize np_mean np_std st xs)) = weights st"
  "bias (fst (normalize np_mean np_std st xs)) = bias st"
  "scaler_std (fst (normalize np_mean np_std st xs)) \<noteq> 0"
  by (simp_all add: normalize_def Let_def)

lemma create_sequences_length:
  "length (fst (create_sequences st xs))
     = nat (int (length xs) - int (window_size st) - int (forecast_horizon st) + 1)"
  "length (snd (create_sequences st xs)) = length (fst (create_sequences st xs))"
  by (simp_all add: create_sequences_def Let_def)

lemma create_sequences_empty:
  "(length (fst (create_sequences st xs)) = 0)
     = (length xs < window_size st + forecast_horizon st)"
  by (auto simp: create_sequences_length)

lemma create_sequences_shape:
  "x \<in> set (fst (create_sequences st xs)) \<Longrightarrow> length x = window_size st"
  "y \<in> set (snd (create_sequences st xs)) \<Longrightarrow> length y = forecast_horizon st"
  by (auto simp: create_sequences_def Let_def)

lemma train_sample_shape:
  assumes "nrows (fst Wb) = r" "ncols (fst Wb) = c" "length (snd Wb) = c" "length (snd xy) = c"
  shows "nrows (fst (train_sample lr Wb xy)) = r \<and> ncols (fst (train_sample lr Wb xy)) = c
         \<and> length (snd (train_sample lr Wb xy)) = c"
  using assms by (simp add: train_sample_def Let_def add_outer_def dot_def)

lemma foldl_train_sample_shape:
  assumes "\<forall>xy \<in> set ps. length (snd xy) = c"
    "nrows (fst Wb) = r" "ncols (fst Wb) = c" "length (snd Wb) = c"
  shows "nrows (fst (foldl (train_sample lr) Wb ps)) = r
       \<and> ncols (fst (foldl (train_sample lr) Wb ps)) = c
       \<and> length (snd (foldl (train_sample lr) Wb ps)) = c"
  using assms
proof (induction ps arbitrary: Wb)
  case Nil
  then show ?case by simp
next
  case (Cons p ps)
  from Cons.prems have "length (snd p) = c" by simp
  from train_sample_shape[OF Cons.prems(2,3,4) this, of lr]
  have "nrows (fst (train_sample lr Wb p)) = r" "ncols (fst (train_sample lr Wb p)) = c"
    "length (snd (train_sample lr Wb p)) = c" by simp_all
  from Cons.IH[OF _ this] Cons.prems(1) show ?case by simp
qed

lemma train_epoch_shape:
  assumes "nrows (fst Wb) = r" "ncols (fst Wb) = c" "length (snd Wb) = c"
    "\<forall>yv \<in> set y. length yv = c"
  shows "nrows (fst (train_epoch lr X y Wb)) = r \<and> ncols (fst (train_epoch lr X y Wb)) = c
         \<and> length (snd (train_epoch lr X y Wb)) = c"
proof -
  have "\<forall>xy \<in> set (zip X y). length (snd xy) = c"
    using assms(4) by (auto dest: set_zip_rightD)
  from foldl_train_sample_shape[OF this assms(1-3)] show ?thesis
    by (simp add: train_epoch_def)
qed

lemma train_epochs_shape:
  assumes "nrows (fst Wb) = r" "ncols (fst Wb) = c" "length (snd Wb) = c"
    "\<forall>yv \<in> set y. length yv = c"
  shows "nrows (fst ((train_epoch lr X y ^^ n) Wb)) = r
       \<and> ncols (fst ((train_epoch lr X y ^^ n) Wb)) = c
       \<and> length (snd ((train_epoch lr X y ^^ n) Wb)) = c"
proof (induction n)
  case 0
  from assms show ?case by simp
next
  case (Suc n)
  from train_epoch_shape[OF _ _ _ assms(4), of "(train_epoch lr X y ^^ n) Wb" r lr X] Suc
  show ?case by simp
qed

lemma train_error:
  "fst (train np_mean np_std rnd st xs epochs lr)
     = (if length xs < window_size st + forecast_horizon st then Some ValueError else None)"
proof -
  obtain st1 nd where n: "normalize np_mean np_std st xs = (st1, nd)" by (cases "normalize np_mean np_std st xs")
  obtain X y where c: "create_sequences st1 nd = (X, y)" by (cases "create_sequences st1 nd")
  from n have f: "window_size st1 = window_size st" "forecast_horizon st1 = forecast_horizon st"
    "length nd = length xs"
    using normalize_facts(1,2,3)[of np_mean np_std st xs] by simp_all
  from create_sequences_empty[of st1 nd] c f
  have "(length X = 0) = (length xs < window_size st + forecast_horizon st)" by simp
  thus ?thesis by (simp add: train_def n c Let_def)
qed

lemma train_trained:
  assumes "fst (train np_mean np_std rnd st xs epochs lr) = None"
  shows "trained (snd (train np_mean np_std rnd st xs epochs lr))"
    "window_size (snd (train np_mean np_std rnd st xs epochs lr)) = window_size st"
    "forecast_horizon (snd (train np_mean np_std rnd st xs epochs lr)) = forecast_horizon st"
proof -
  obtain st1 nd where n: "normalize np_mean np_std st xs = (st1, nd)" by (cases "normalize np_mean np_std st xs")
  obtain X y where c: "create_sequences st1 nd = (X, y)" by (cases "create_sequences st1 nd")
  from n have f: "window_size st1 = window_size st" "forecast_horizon st1 = forecast_horizon st"
    using normalize_facts(1,2)[of np_mean np_std st xs] by simp_all
  from assms have ne: "length X \<noteq> 0"
    by (auto simp: train_def n c Let_def split: if_splits)
  let ?W0 = "\<lparr>nrows = window_size st1, ncols = forecast_horizon st1,
              cells = map (\<lambda>i. map (\<lambda>j. rnd i j * 0.01) [0..<forecast_horizon st1])
                        [0..<window_size st1]\<rparr>"
  let ?b0 = "replicate (forecast_horizon st1) (0::real)"
  let ?Wb = "((train_epoch lr X y) ^^ epochs) (?W0, ?b0)"
  have y: "\<forall>yv \<in> set y. length yv = forecast_horizon st1"
    using create_sequences_shape(2)[of _ st1 nd] c by simp
  have sh: "nrows (fst ?Wb) = window_size st1 \<and> ncols (fst ?Wb) = forecast_horizon st1
        \<and> length (snd ?Wb) = forecast_horizon st1"
    by (rule train_epochs_shape[OF _ _ _ y]) simp_all
  have r: "snd (train np_mean np_std rnd st xs epochs lr) = st1\<lparr>weights := Some (fst ?Wb), bias := Some (snd ?Wb)\<rparr>"
    using ne by (simp add: train_def n c Let_def)
  show "trained (snd (train np_mean np_std rnd st xs epochs lr))"
    unfolding r using sh by (simp add: trained_def)
  show "window_size (snd (train np_mean np_std rnd st xs epochs lr)) = window_size st"
    "forecast_horizon (snd (train np_mean np_std rnd st xs epochs lr)) = forecast_horizon st"
    unfolding r using f by simp_all
qed

lemma forecast_state: "snd (forecast st xs) = st"
  by (simp add: forecast_def Let_def split: option.splits sum.splits)

lemma forecast_trained:
  assumes "trained st" "1 \<le> window_size st"
  shows "isl (fst (forecast st xs)) = (length xs < window_size st)"
proof (cases "length xs < window_size st")
  case True
  then show ?thesis by (simp add: forecast_def)
next
  case False
  from assms(1) obtain W b where wb: "weights st = Some W" "bias st = Some b"
    "nrows W = window_size st" "ncols W = forecast_horizon st"
    "length b = forecast_horizon st"
    by (auto simp: trained_def split: option.splits)
  let ?n = "map (\<lambda>x. (x - scaler_mean st) / scaler_std st)
              (drop (length xs - window_size st) xs)"
  have l: "length ?n = nrows W" using False wb(3) by simp
  have a: "np_add (dot ?n W) b = Inr (map2 (+) (dot ?n W) b)"
    using wb(4,5) by (simp add: np_add_def dot_def)
  have "fst (forecast st xs) = Inr (denormalize st (map2 (+) (dot ?n W) b))"
    using False assms(2) wb(1,2) l a by (simp add: forecast_def Let_def)
  with False show ?thesis by simp
qed













text \<open>
  C7 as stated fails for \<open>forecast\<close>: a forecaster that was never trained holds no
  weights, and \<open>forecast\<close> raises on an input that has \<open>window_size\<close> points.
\<close>

theorem forecast_untrained_counterexample:
  "isl (fst (forecast (TimeSeriesForecaster 2 1) [1, 2]))
   \<and> \<not> length [1 :: real, 2] < window_size (TimeSeriesForecaster 2 1)"
  by (simp add: forecast_def TimeSeriesForecaster_def Let_def)

text \<open>
  C7, amended.  \<open>train\<close> raises \<open>ValueError\<close> exactly when the series has fewer than
  \<open>window_size + forecast_horizon\<close> points, and raises nothing otherwise, whatever the
  computed mean and deviation are.  On the forecaster that a successful \<open>train\<close>
  leaves, with a window size of at least one, \<open>forecast\<close> raises exactly when its
  input has fewer than \<open>window_size\<close> points.  \<open>forecast\<close> never changes the forecaster,
  so the stored weights and bias are the same after an error.
\<close>

theorem forecaster_errors:
  "(fst (train np_mean np_std rnd st xs epochs lr) = Some ValueError)
      = (length xs < window_size st + forecast_horizon st)
   \<and> (fst (train np_mean np_std rnd st xs epochs lr) = None)
      = (window_size st + forecast_horizon st \<le> length xs)
   \<and> (fst (train np_mean np_std rnd st xs epochs lr) = None \<and> 1 \<le> window_size st \<longrightarrow>
        isl (fst (forecast (snd (train np_mean np_std rnd st xs epochs lr)) ys))
          = (length ys < window_size st))
   \<and> snd (forecast st' ys) = st'
   \<and> weights (snd (forecast st' ys)) = weights st'
   \<and> bias (snd (forecast st' ys)) = bias st'"
proof -
  have a: "(fst (train np_mean np_std rnd st xs epochs lr) = Some ValueError)
      = (length xs < window_size st + forecast_horizon st)"
    "(fst (train np_mean np_std rnd st xs epochs lr) = None)
      = (window_size st + forecast_horizon st \<le> length xs)"
    by (auto simp: train_error)
  have b: "fst (train np_mean np_std rnd st xs epochs lr) = None \<and> 1 \<le> window_size st \<longrightarrow>
        isl (fst (forecast (snd (train np_mean np_std rnd st xs epochs lr)) ys))
          = (length ys < window_size st)"
  proof (intro impI, elim conjE)
    assume t: "fst (train np_mean np_std rnd st xs epochs lr) = None"
      and w: "1 \<le> window_size st"
    from train_trained[OF t] w
    have "trained (snd (train np_mean np_std rnd st xs epochs lr))"
      "1 \<le> window_size (snd (train np_mean np_std rnd st xs epochs lr))" by simp_all
    from forecast_trained[OF this, of ys] train_trained(2)[OF t]
    show "isl (fst (forecast (snd (train np_mean np_std rnd st xs epochs lr)) ys))
            = (length ys < window_size st)"
      by simp
  qed
  have d: "snd (forecast st' ys) = st'"
    by (rule forecast_state)
  from a b d show ?thesis by simp
qed

theorem forecaster_errors_witness:
  "fst (train mean (\<lambda>xs. 1) (\<lambda>i j. 0) (TimeSeriesForecaster 2 1) [1, 2, 3] 0 0.001) = None
   \<and> 1 \<le> window_size (TimeSeriesForecaster 2 1)
   \<and> isl (fst (forecast
                  (snd (train mean (\<lambda>xs. 1) (\<lambda>i j. 0) (TimeSeriesForecaster 2 1) [1, 2, 3] 0 0.001))
                  [1, 2]))
       = (length [1 :: real, 2] < window_size (TimeSeriesForecaster 2 1))"
proof -
  have h1: "fst (train mean (\<lambda>xs. 1) (\<lambda>i j. 0) (TimeSeriesForecaster 2 1) [1, 2, 3] 0 0.001) = None"
    by (simp add: train_error TimeSeriesForecaster_def)
  have h2: "1 \<le> window_size (TimeSeriesForecaster 2 1)"
    by (simp add: TimeSeriesForecaster_def)
  note t = forecaster_errors
             [where np_mean = mean and np_std = "\<lambda>xs. 1" and rnd = "\<lambda>i j. 0"
                and st = "TimeSeriesForecaster 2 1" and xs = "[1, 2, 3]"
                and epochs = 0 and lr = "0.001" and ys = "[1, 2]"
                and st' = "TimeSeriesForecaster 2 1"]
  from t h1 h2 show ?thesis by blast
qed





section \<open>Predicted ratings\<close>

lemma list_all_update:
  "list_all P xs \<Longrightarrow> P r \<Longrightarrow> list_all P (xs[i := r])"
  by (induction xs arbitrary: i) (auto split: nat.splits)

lemma sgd_step_keeps:
  "user_to_idx (snd (sgd_step lr reg st x)) = user_to_idx st"
  "item_to_idx (snd (sgd_step lr reg st x)) = item_to_idx st"
  "global_mean (snd (sgd_step lr reg st x)) = global_mean st"
  by (simp_all add: sgd_step_def Let_def split: option.splits sum.splits)

lemma sgd_step_shaped:
  assumes "shaped nu ni nf st"
  shows "shaped nu ni nf (snd (sgd_step lr reg st x))"
proof (cases "fst (sgd_step lr reg st x)")
  case (Some e)
  hence "snd (sgd_step lr reg st x) = st"
    by (auto simp: sgd_step_def Let_def split: option.splits sum.splits)
  with assms show ?thesis by simp
next
  case None
  then obtain ui ii p where i: "user_to_idx st (fst x) = Some ui" "item_to_idx st (fst (snd x)) = Some ii"
    "predict_rating st (fst x) (fst (snd x)) = Inr p"
    by (auto simp: sgd_step_def Let_def split: option.splits sum.splits)
  from i have r: "ui < length (user_factors st)" "ii < length (item_factors st)"
    by (auto simp: predict_rating_def split: if_splits)
  from assms r have l: "length (user_factors st ! ui) = nf" "length (item_factors st ! ii) = nf"
    by (auto simp: shaped_def list_all_length)
  show ?thesis
    using assms l i
    by (simp add: sgd_step_def Let_def shaped_def list_all_update)
qed

lemma run_interactions_keeps:
  "user_to_idx (snd (run_interactions lr reg st xs)) = user_to_idx st
   \<and> item_to_idx (snd (run_interactions lr reg st xs)) = item_to_idx st
   \<and> global_mean (snd (run_interactions lr reg st xs)) = global_mean st
   \<and> (shaped nu ni nf st \<longrightarrow> shaped nu ni nf (snd (run_interactions lr reg st xs)))"
proof (induction xs arbitrary: st)
  case Nil
  show ?case by simp
next
  case (Cons x xs)
  obtain e st1 where s: "sgd_step lr reg st x = (e, st1)" by (cases "sgd_step lr reg st x")
  from sgd_step_keeps[of lr reg st x] sgd_step_shaped[of nu ni nf st lr reg x] s
  have k: "user_to_idx st1 = user_to_idx st" "item_to_idx st1 = item_to_idx st"
    "global_mean st1 = global_mean st" "shaped nu ni nf st \<Longrightarrow> shaped nu ni nf st1"
    by simp_all
  show ?case
  proof (cases e)
    case (Some a)
    with s k show ?thesis by simp
  next
    case None
    with s k Cons.IH[of st1] show ?thesis by simp
  qed
qed

lemma run_epochs_keeps:
  "user_to_idx (snd (run_epochs lr reg xs n st)) = user_to_idx st
   \<and> item_to_idx (snd (run_epochs lr reg xs n st)) = item_to_idx st
   \<and> global_mean (snd (run_epochs lr reg xs n st)) = global_mean st
   \<and> (shaped nu ni nf st \<longrightarrow> shaped nu ni nf (snd (run_epochs lr reg xs n st)))"
proof (induction n arbitrary: st)
  case 0
  show ?case by simp
next
  case (Suc n)
  obtain e st1 where s: "run_interactions lr reg st xs = (e, st1)"
    by (cases "run_interactions lr reg st xs")
  from run_interactions_keeps[of lr reg st xs nu ni nf] s
  have k: "user_to_idx st1 = user_to_idx st" "item_to_idx st1 = item_to_idx st"
    "global_mean st1 = global_mean st" "shaped nu ni nf st \<Longrightarrow> shaped nu ni nf st1"
    by simp_all
  show ?case
  proof (cases e)
    case (Some a)
    with s k show ?thesis by simp
  next
    case None
    with s k Suc.IH[of st1] show ?thesis by simp
  qed
qed

lemma set_unique: "set (unique xs) = set xs"
  by (simp add: unique_def)

lemma map_of_zip_upt:
  "(map_of (zip us [0..<length us]) u = None) = (u \<notin> set us)"
  "map_of (zip us [0..<length us]) u = Some i \<Longrightarrow> i < length us"
proof -
  show "(map_of (zip us [0..<length us]) u = None) = (u \<notin> set us)"
    by (simp add: map_of_eq_None_iff set_map [symmetric] del: set_map)
  assume "map_of (zip us [0..<length us]) u = Some i"
  hence "(u, i) \<in> set (zip us [0..<length us])" by (rule map_of_SomeD)
  hence "i \<in> set [0..<length us]" by (rule set_zip_rightD)
  thus "i < length us" by simp
qed

lemma fit_keeps:
  "user_to_idx (snd (fit ru ri st xs n lr reg))
     = map_of (zip (unique (map fst xs)) [0..<length (unique (map fst xs))])"
  "item_to_idx (snd (fit ru ri st xs n lr reg))
     = map_of (zip (unique (map (\<lambda>x. fst (snd x)) xs))
                   [0..<length (unique (map (\<lambda>x. fst (snd x)) xs))])"
  "global_mean (snd (fit ru ri st xs n lr reg)) = mean (map (\<lambda>x. snd (snd x)) xs)"
  "shaped (length (unique (map fst xs))) (length (unique (map (\<lambda>x. fst (snd x)) xs)))
          (num_factors st) (snd (fit ru ri st xs n lr reg))"
proof -
  let ?users = "unique (map fst xs)"
  let ?items = "unique (map (\<lambda>x. fst (snd x)) xs)"
  let ?st1 = "st\<lparr>user_to_idx := map_of (zip ?users [0..<length ?users]),
                   item_to_idx := map_of (zip ?items [0..<length ?items]),
                   global_mean := mean (map (\<lambda>x. snd (snd x)) xs),
                   user_factors := map (\<lambda>i. map (\<lambda>k. ru i k) [0..<num_factors st])
                                     [0..<length ?users],
                   item_factors := map (\<lambda>i. map (\<lambda>k. ri i k) [0..<num_factors st])
                                     [0..<length ?items],
                   user_biases := replicate (length ?users) 0,
                   item_biases := replicate (length ?items) 0\<rparr>"
  have f: "fit ru ri st xs n lr reg = run_epochs lr reg xs n ?st1"
    by (simp add: fit_def Let_def)
  have sh: "shaped (length ?users) (length ?items) (num_factors st) ?st1"
    by (simp add: shaped_def list_all_iff)
  note k = run_epochs_keeps[of lr reg xs n ?st1 "length ?users" "length ?items" "num_factors st"]
  show "user_to_idx (snd (fit ru ri st xs n lr reg)) = map_of (zip ?users [0..<length ?users])"
    unfolding f using k by simp
  show "item_to_idx (snd (fit ru ri st xs n lr reg)) = map_of (zip ?items [0..<length ?items])"
    unfolding f using k by simp
  show "global_mean (snd (fit ru ri st xs n lr reg)) = mean (map (\<lambda>x. snd (snd x)) xs)"
    unfolding f using k by simp
  show "shaped (length ?users) (length ?items) (num_factors st) (snd (fit ru ri st xs n lr reg))"
    unfolding f using k sh by blast
qed

lemma predict_unseen:
  assumes "user \<notin> fst ` set xs \<or> item \<notin> (\<lambda>x. fst (snd x)) ` set xs"
  shows "predict_rating (snd (fit ru ri st xs n lr reg)) user item
           = Inr (mean (map (\<lambda>x. snd (snd x)) xs))"
proof -
  let ?st' = "snd (fit ru ri st xs n lr reg)"
  from assms have "user_to_idx ?st' user = None \<or> item_to_idx ?st' item = None"
    by (auto simp: fit_keeps(1,2) map_of_zip_upt(1) set_unique)
  thus ?thesis
    by (auto simp: predict_rating_def fit_keeps(3) split: option.splits)
qed

lemma predict_seen:
  assumes "user \<in> fst ` set xs" "item \<in> (\<lambda>x. fst (snd x)) ` set xs"
  shows "\<exists>ui ii. user_to_idx (snd (fit ru ri st xs n lr reg)) user = Some ui
          \<and> item_to_idx (snd (fit ru ri st xs n lr reg)) item = Some ii
          \<and> predict_rating (snd (fit ru ri st xs n lr reg)) user item
              = Inr (mean (map (\<lambda>x. snd (snd x)) xs)
                     + user_biases (snd (fit ru ri st xs n lr reg)) ! ui
                     + item_biases (snd (fit ru ri st xs n lr reg)) ! ii
                     + vdot (user_factors (snd (fit ru ri st xs n lr reg)) ! ui)
                            (item_factors (snd (fit ru ri st xs n lr reg)) ! ii))"
proof -
  let ?st' = "snd (fit ru ri st xs n lr reg)"
  let ?users = "unique (map fst xs)"
  let ?items = "unique (map (\<lambda>x. fst (snd x)) xs)"
  from assms(1) have "user_to_idx ?st' user \<noteq> None"
    by (simp add: fit_keeps(1) map_of_zip_upt(1) set_unique)
  then obtain ui where ui: "user_to_idx ?st' user = Some ui" by auto
  from assms(2) have "item_to_idx ?st' item \<noteq> None"
    by (simp add: fit_keeps(2) map_of_zip_upt(1) set_unique)
  then obtain ii where ii: "item_to_idx ?st' item = Some ii" by auto
  from ui have ul: "ui < length ?users"
    unfolding fit_keeps(1) by (rule map_of_zip_upt(2))
  from ii have il: "ii < length ?items"
    unfolding fit_keeps(2) by (rule map_of_zip_upt(2))
  note sh = fit_keeps(4)[of xs st ru ri n lr reg]
  from sh ul il have b: "ui < length (user_biases ?st')" "ii < length (item_biases ?st')"
    "ui < length (user_factors ?st')" "ii < length (item_factors ?st')"
    by (simp_all add: shaped_def)
  from sh b have r: "length (user_factors ?st' ! ui) = length (item_factors ?st' ! ii)"
    by (simp add: shaped_def list_all_length)
  have "predict_rating ?st' user item
          = Inr (global_mean ?st' + user_biases ?st' ! ui + item_biases ?st' ! ii
                 + vdot (user_factors ?st' ! ui) (item_factors ?st' ! ii))"
    using ui ii b r by (simp add: predict_rating_def)
  with ui ii show ?thesis by (simp add: fit_keeps(3))
qed

text \<open>
  C4.  After \<open>fit\<close>, whether it returned or raised, \<open>predict_rating\<close> returns the mean of
  the ratings of the fitted interactions when the user or the item is not among them;
  when both are, it returns that mean plus the bias of the user, the bias of the item
  and the dot product of their factor rows, at the indices that \<open>fit\<close> gave them, and
  raises nothing.
\<close>

theorem predict_rating_after_fit:
  "(user \<notin> fst ` set xs \<or> item \<notin> (\<lambda>x. fst (snd x)) ` set xs \<longrightarrow>
      predict_rating (snd (fit ru ri st xs n lr reg)) user item
        = Inr (mean (map (\<lambda>x. snd (snd x)) xs)))
   \<and> (user' \<in> fst ` set xs \<and> item' \<in> (\<lambda>x. fst (snd x)) ` set xs \<longrightarrow>
        (\<exists>ui ii. user_to_idx (snd (fit ru ri st xs n lr reg)) user' = Some ui
          \<and> item_to_idx (snd (fit ru ri st xs n lr reg)) item' = Some ii
          \<and> predict_rating (snd (fit ru ri st xs n lr reg)) user' item'
              = Inr (mean (map (\<lambda>x. snd (snd x)) xs)
                     + user_biases (snd (fit ru ri st xs n lr reg)) ! ui
                     + item_biases (snd (fit ru ri st xs n lr reg)) ! ii
                     + vdot (user_factors (snd (fit ru ri st xs n lr reg)) ! ui)
                            (item_factors (snd (fit ru ri st xs n lr reg)) ! ii))))
   \<and> global_mean (snd (fit ru ri st xs n lr reg)) = mean (map (\<lambda>x. snd (snd x)) xs)"
  using predict_unseen [of user xs item ru ri st n lr reg]
    predict_seen [of user' xs item' ru ri st n lr reg]
    fit_keeps(3) [of ru ri st xs n lr reg]
  by blast

theorem predict_rating_after_fit_witness:
  "''v'' \<notin> fst ` set [(''u'', ''i'', 4 :: real)]
   \<and> ''u'' \<in> fst ` set [(''u'', ''i'', 4 :: real)]
   \<and> ''i'' \<in> (\<lambda>x. fst (snd x)) ` set [(''u'', ''i'', 4 :: real)]
   \<and> predict_rating
        (snd (fit (\<lambda>i k. 0.1) (\<lambda>i k. 0.1) (RecommendationEngine 2) [(''u'', ''i'', 4)] 1 0.01 0.02))
        ''v'' ''i''
       = Inr (mean (map (\<lambda>x. snd (snd x)) [(''u'', ''i'', 4)]))"
proof -
  have h1: "''v'' \<notin> fst ` set [(''u'', ''i'', 4 :: real)]"
    by simp
  have h2: "''u'' \<in> fst ` set [(''u'', ''i'', 4 :: real)]"
    by simp
  have h3: "''i'' \<in> (\<lambda>x. fst (snd x)) ` set [(''u'', ''i'', 4 :: real)]"
    by simp
  note t = predict_rating_after_fit
             [where user = "''v''" and item = "''i''" and xs = "[(''u'', ''i'', 4)]"
                and user' = "''u''" and item' = "''i''" and ru = "\<lambda>i k. 0.1"
                and ri = "\<lambda>i k. 0.1" and st = "RecommendationEngine 2" and n = 1
                and lr = "0.01" and reg = "0.02"]
  from t h1 h2 h3 show ?thesis by blast
qed

end
